theory Spec2Isabelle
  imports Main "HOL-Library.AList" "HOL-Library.Multiset"
    "HOL-Library.Char_ord" "HOL-Library.List_Lexorder"
begin

section \<open>Values, documents and errors\<close>

text \<open>
  The handlers of \<^verbatim>\<open>main.py\<close> move Python dicts between the request, the
  response and a document store. A dict is an association list (Python dicts
  and BSON documents keep their order); a value is one of the kinds JSON and
  the store know. Floating point numbers are left out.
\<close>

type_synonym oid = string

datatype val =
    VNone
  | VBool bool
  | VInt int
  | VStr string
  | VOid oid
  | VTime nat
  | VList "val list"
  | VDict "(string \<times> val) list"

type_synonym doc = "(string \<times> val) list"

text \<open>
  \<^verbatim>\<open>HTTPException(status_code, detail)\<close> is what a handler raises itself.
  Every other exception leaves the handler unhandled (the framework answers
  with a generic server error): the \<^verbatim>\<open>NotImplementedError\<close> of a truth test
  the database object refuses, the identifier parser's \<^verbatim>\<open>InvalidId\<close>, the
  encoder's \<^verbatim>\<open>OverflowError\<close>, a write the store rejects, a
  \<^verbatim>\<open>TypeError\<close> of a comparison, a response that fails validation, and
  whatever the hashing library raises.
\<close>

datatype error =
    HTTPException nat string
  | Unhandled string

subsection \<open>Python dict operations\<close>

definition get :: "doc \<Rightarrow> string \<Rightarrow> val" where
  \<comment> \<open>\<^verbatim>\<open>d.get(k)\<close>: None for a missing key\<close>
  "get d k = (case map_of d k of None \<Rightarrow> VNone | Some v \<Rightarrow> v)"

definition get_default :: "doc \<Rightarrow> string \<Rightarrow> val \<Rightarrow> val" where
  \<comment> \<open>\<^verbatim>\<open>d.get(k, default)\<close>\<close>
  "get_default d k dflt = (case map_of d k of None \<Rightarrow> dflt | Some v \<Rightarrow> v)"

definition setitem :: "string \<Rightarrow> val \<Rightarrow> doc \<Rightarrow> doc" where
  \<comment> \<open>\<^verbatim>\<open>d[k] = v\<close>: overwrite in place, or append\<close>
  "setitem k v d = AList.update k v d"

definition pop :: "string \<Rightarrow> doc \<Rightarrow> doc" where
  \<comment> \<open>\<^verbatim>\<open>d.pop(k, None)\<close>, for its effect on the dict\<close>
  "pop k d = AList.delete k d"

definition truthy_doc :: "doc option \<Rightarrow> bool" where
  \<comment> \<open>\<^verbatim>\<open>if doc:\<close> for None or a dict: an empty dict is false too\<close>
  "truthy_doc r = (case r of None \<Rightarrow> False | Some d \<Rightarrow> d \<noteq> [])"

definition digit_char :: "nat \<Rightarrow> char" where
  "digit_char n = ''0123456789'' ! (n mod 10)"

function show_nat :: "nat \<Rightarrow> string" where
  "show_nat n = (if n < 10 then [digit_char n]
                 else show_nat (n div 10) @ [digit_char (n mod 10)])"
  by pat_completeness auto
termination
  by (relation "measure id") auto

declare show_nat.simps [simp del]

fun py_str :: "val \<Rightarrow> string" where
  \<comment> \<open>\<^verbatim>\<open>str(v)\<close> for what \<^verbatim>\<open>it.get("_id")\<close> yields from a stored document:
      an ObjectId prints as its hexadecimal digits, a missing key as None, an
      integer in decimal. Every endpoint that writes a document leaves an
      ObjectId under \<^verbatim>\<open>_id\<close>; the printed forms of a time, a list and a
      dict are not modelled and stand as None.\<close>
  "py_str (VOid i) = i"
| "py_str (VStr s) = s"
| "py_str (VBool b) = (if b then ''True'' else ''False'')"
| "py_str (VInt i) = (if i < 0 then CHR ''-'' # show_nat (nat (- i)) else show_nat (nat i))"
| "py_str _ = ''None''"

subsection \<open>Object identifiers\<close>

text \<open>
  \<^verbatim>\<open>bson.ObjectId(s)\<close> for a string: a string of 24 characters is handed to
  \<^verbatim>\<open>bytes.fromhex\<close>, and whatever that returns is the identifier; any other
  string, and a string \<^verbatim>\<open>fromhex\<close> refuses, raises \<^verbatim>\<open>InvalidId\<close>.
  \<^verbatim>\<open>fromhex\<close> reads pairs of hexadecimal digits and skips ASCII whitespace
  before a pair, so 24 characters with whitespace among them give an
  identifier of fewer than twelve bytes. An identifier is kept as the
  lower-case hexadecimal digits of its bytes, which is what \<^verbatim>\<open>str\<close> prints.
\<close>

definition hexdigit :: "char \<Rightarrow> bool" where
  "hexdigit c = (c \<in> set ''0123456789abcdefABCDEF'')"

definition isspace :: "char \<Rightarrow> bool" where
  \<comment> \<open>space, tab, line feed, vertical tab, form feed, carriage return\<close>
  "isspace c = (c \<in> set [CHR 0x20, CHR 0x09, CHR 0x0A, CHR 0x0B, CHR 0x0C, CHR 0x0D])"

definition lower :: "char \<Rightarrow> char" where
  "lower c = (if c = CHR ''A'' then CHR ''a'' else if c = CHR ''B'' then CHR ''b''
     else if c = CHR ''C'' then CHR ''c'' else if c = CHR ''D'' then CHR ''d''
     else if c = CHR ''E'' then CHR ''e'' else if c = CHR ''F'' then CHR ''f'' else c)"

fun fromhex :: "string \<Rightarrow> string option" where
  "fromhex [] = Some []"
| "fromhex [c] = (if isspace c then Some [] else None)"
| "fromhex (c # d # cs) =
     (if isspace c then fromhex (d # cs)
      else if hexdigit c \<and> hexdigit d
      then (case fromhex cs of None \<Rightarrow> None | Some r \<Rightarrow> Some (lower c # lower d # r))
      else None)"

definition ObjectId :: "string \<Rightarrow> error + oid" where
  "ObjectId s =
     (if length s = 24
      then (case fromhex s of
              None \<Rightarrow> Inl (Unhandled ''InvalidId'')
            | Some i \<Rightarrow> Inr i)
      else Inl (Unhandled ''InvalidId''))"

section \<open>The document store\<close>

text \<open>
  A store maps a collection name to the documents of that collection, in
  insertion order. The process-wide handle \<^verbatim>\<open>db\<close> is a store or absent
  (None).

  Some handlers test \<^verbatim>\<open>db is None\<close>, others write \<^verbatim>\<open>x if db else y\<close>, which
  asks the handle for its truth value. None is false. What a present handle
  answers is the database object's own: the module that creates it is not
  among the sources, so it is a parameter. A \<^verbatim>\<open>pymongo\<close> 4 \<^verbatim>\<open>Database\<close>
  refuses the test with \<^verbatim>\<open>NotImplementedError\<close> (\<open>NoTruthValue\<close>); an
  object with no truth test of its own is true (\<open>Truthy\<close>).
\<close>

type_synonym store = "string \<Rightarrow> doc list"
type_synonym handle = "store option"

datatype truthiness = Truthy | NoTruthValue

definition if_db :: "truthiness \<Rightarrow> handle \<Rightarrow> (store \<Rightarrow> 'a) \<Rightarrow> 'a \<Rightarrow> error + 'a" where
  \<comment> \<open>\<^verbatim>\<open>f(db) if db else y\<close>\<close>
  "if_db t db f y =
     (case db of
        None \<Rightarrow> Inr y
      | Some s \<Rightarrow>
          (case t of
             Truthy \<Rightarrow> Inr (f s)
           | NoTruthValue \<Rightarrow> Inl (Unhandled ''NotImplementedError'')))"

text \<open>
  The collection operations the handlers call. A filter is a dict of field
  and value, matched by equality on top-level fields.
\<close>

definition matches :: "doc \<Rightarrow> doc \<Rightarrow> bool" where
  "matches flt d = list_all (\<lambda>(k, v). map_of d k = Some v) flt"

definition find_one :: "doc \<Rightarrow> doc list \<Rightarrow> doc option" where
  "find_one flt c = List.find (matches flt) c"

definition find_many :: "doc \<Rightarrow> doc list \<Rightarrow> doc list" where
  \<comment> \<open>\<^verbatim>\<open>collection.find(filter)\<close>, read to the end\<close>
  "find_many flt c = filter (matches flt) c"

definition insert_one :: "oid \<Rightarrow> doc \<Rightarrow> doc list \<Rightarrow> doc list" where
  \<comment> \<open>the driver adds the identifier it generated, here \<open>new_id\<close>\<close>
  "insert_one new_id d c = c @ [(''_id'', VOid new_id) # d]"

subsection \<open>Updates with \<^verbatim>\<open>$set\<close>\<close>

text \<open>
  The driver encodes the update before it is sent, and refuses an integer that
  does not fit 64 bits (\<^verbatim>\<open>OverflowError\<close>).
\<close>

fun encodable :: "val \<Rightarrow> bool" where
  "encodable (VInt i) = (- (2 ^ 63) \<le> i \<and> i < 2 ^ 63)"
| "encodable (VList xs) = list_all encodable xs"
| "encodable (VDict d) = list_all encodable (map snd d)"
| "encodable _ = True"

text \<open>
  The store reads a field name of \<^verbatim>\<open>$set\<close> as a path: the dots split it
  into components, and each component but the last names the embedded document
  (or the array position) to descend into, created when it is missing. A path
  with an empty component, and two paths of which one is a prefix of the other,
  are refused before any document is looked at. A component that starts with a
  dollar sign is taken as a plain name here: the store's positional operators
  are not modelled.
\<close>

fun split_path :: "string \<Rightarrow> string list" where
  "split_path [] = [[]]"
| "split_path (c # cs) =
     (if c = CHR ''.'' then [] # split_path cs
      else (case split_path cs of
              [] \<Rightarrow> [[c]]
            | p # ps \<Rightarrow> (c # p) # ps))"

fun nest :: "string list \<Rightarrow> val \<Rightarrow> val" where
  \<comment> \<open>the embedded documents a missing path creates\<close>
  "nest [] v = v"
| "nest (k # ks) v = VDict [(k, nest ks v)]"

definition isdigit :: "char \<Rightarrow> bool" where
  "isdigit c = (c \<in> set ''0123456789'')"

definition array_index :: "string \<Rightarrow> nat option" where
  \<comment> \<open>a component made of decimal digits is a position in an array\<close>
  "array_index k =
     (if k \<noteq> [] \<and> list_all isdigit k
      then Some (foldl (\<lambda>n c. 10 * n + (of_char c - 48)) 0 k)
      else None)"

fun set_in :: "string list \<Rightarrow> val \<Rightarrow> val \<Rightarrow> error + val" where
  \<comment> \<open>the value \<open>old\<close> with \<open>v\<close> set at the end of the path\<close>
  "set_in [] v old = Inr v"
| "set_in (k # ks) v (VDict d) =
     (case map_of d k of
        None \<Rightarrow> Inr (VDict (AList.update k (nest ks v) d))
      | Some old \<Rightarrow>
          (case set_in ks v old of
             Inl e \<Rightarrow> Inl e
           | Inr new \<Rightarrow> Inr (VDict (AList.update k new d))))"
| "set_in (k # ks) v (VList xs) =
     (case array_index k of
        None \<Rightarrow> Inl (Unhandled ''WriteError'')
      | Some n \<Rightarrow>
          if n < length xs
          then (case set_in ks v (xs ! n) of
                  Inl e \<Rightarrow> Inl e
                | Inr new \<Rightarrow> Inr (VList (xs[n := new])))
          else Inr (VList (xs @ replicate (n - length xs) VNone @ [nest ks v])))"
| "set_in (k # ks) v old = Inl (Unhandled ''WriteError'')"

definition set_field :: "string \<Rightarrow> val \<Rightarrow> doc \<Rightarrow> error + doc" where
  \<comment> \<open>one entry of \<^verbatim>\<open>$set\<close> on one document\<close>
  "set_field k v d =
     (case split_path k of
        [] \<Rightarrow> Inr d
      | c # cs \<Rightarrow>
          (case map_of d c of
             None \<Rightarrow> Inr (AList.update c (nest cs v) d)
           | Some old \<Rightarrow>
               (case set_in cs v old of
                  Inl e \<Rightarrow> Inl e
                | Inr new \<Rightarrow> Inr (AList.update c new d))))"

fun apply_set :: "doc \<Rightarrow> doc \<Rightarrow> error + doc" where
  \<comment> \<open>\<^verbatim>\<open>{"$set": payload}\<close> on one document: each named field is overwritten
      or added, the others stay\<close>
  "apply_set [] d = Inr d"
| "apply_set ((k, v) # payload) d =
     (case set_field k v d of
        Inl e \<Rightarrow> Inl e
      | Inr d' \<Rightarrow> apply_set payload d')"

fun is_prefix :: "string list \<Rightarrow> string list \<Rightarrow> bool" where
  "is_prefix [] q = True"
| "is_prefix (a # p) [] = False"
| "is_prefix (a # p) (b # q) = (a = b \<and> is_prefix p q)"

fun conflicting :: "string list list \<Rightarrow> bool" where
  "conflicting [] = False"
| "conflicting (p # ps) =
     (list_ex (\<lambda>q. is_prefix p q \<or> is_prefix q p) ps \<or> conflicting ps)"

definition check_update :: "doc \<Rightarrow> error option" where
  \<comment> \<open>what refuses \<^verbatim>\<open>{"$set": payload}\<close> before any document is looked at:
      the driver's encoder first, then the store's parser\<close>
  "check_update payload =
     (if \<not> list_all encodable (map snd payload) then Some (Unhandled ''OverflowError'')
      else if list_ex (\<lambda>k. list_ex (\<lambda>c. c = []) (split_path k)) (map fst payload)
              \<or> conflicting (map split_path (map fst payload))
      then Some (Unhandled ''WriteError'')
      else None)"

definition plain_name :: "string \<Rightarrow> bool" where
  \<comment> \<open>a field name that is no path and no operator: not empty, no dot, no
      leading dollar sign, no NUL\<close>
  "plain_name k = (k \<noteq> [] \<and> CHR ''.'' \<notin> set k \<and> CHR 0x00 \<notin> set k \<and> hd k \<noteq> CHR ''$'')"

fun update_first :: "doc \<Rightarrow> doc \<Rightarrow> doc list \<Rightarrow> error + (doc list \<times> nat)" where
  \<comment> \<open>the first matching document is updated; the number is \<^verbatim>\<open>matched_count\<close>.
      The store refuses a write that would change \<^verbatim>\<open>_id\<close>.\<close>
  "update_first flt payload [] = Inr ([], 0)"
| "update_first flt payload (d # c) =
     (if matches flt d then
        (case apply_set payload d of
           Inl e \<Rightarrow> Inl e
         | Inr d' \<Rightarrow>
             if map_of d' ''_id'' \<noteq> map_of d ''_id'' then Inl (Unhandled ''WriteError'')
             else Inr (d' # c, 1))
      else (case update_first flt payload c of
              Inl e \<Rightarrow> Inl e
            | Inr (c', n) \<Rightarrow> Inr (d # c', n)))"

definition upserted :: "doc \<Rightarrow> doc \<Rightarrow> oid \<Rightarrow> error + doc" where
  \<comment> \<open>the document an upsert inserts when nothing matches: the filter's fields
      with the payload set on them, under the identifier the store generates
      unless the payload brings one\<close>
  "upserted flt payload new_id =
     (case apply_set payload flt of
        Inl e \<Rightarrow> Inl e
      | Inr d \<Rightarrow>
          (case map_of d ''_id'' of
             None \<Rightarrow> Inr ((''_id'', VOid new_id) # d)
           | Some i \<Rightarrow> Inr d))"

definition update_one :: "doc \<Rightarrow> doc \<Rightarrow> oid option \<Rightarrow> doc list \<Rightarrow> error + (doc list \<times> nat)" where
  \<comment> \<open>\<^verbatim>\<open>update_one(filter, {"$set": payload}, upsert=...)\<close>. The third
      argument is None without upsert; with upsert it is the identifier the
      store generates when nothing matches.\<close>
  "update_one flt payload upsert c =
     (case check_update payload of
        Some e \<Rightarrow> Inl e
      | None \<Rightarrow>
          (case update_first flt payload c of
             Inl e \<Rightarrow> Inl e
           | Inr (c', n) \<Rightarrow>
               (case upsert of
                  None \<Rightarrow> Inr (c', n)
                | Some new_id \<Rightarrow>
                    if n = 0
                    then (case upserted flt payload new_id of
                            Inl e \<Rightarrow> Inl e
                          | Inr d \<Rightarrow> Inr (c @ [d], 0))
                    else Inr (c', n))))"

fun delete_one :: "doc \<Rightarrow> doc list \<Rightarrow> doc list \<times> nat" where
  \<comment> \<open>the first matching document is removed; the number is \<^verbatim>\<open>deleted_count\<close>\<close>
  "delete_one flt [] = ([], 0)"
| "delete_one flt (d # c) =
     (if matches flt d then (c, 1)
      else (case delete_one flt c of (c', n) \<Rightarrow> (d # c', n)))"

subsection \<open>The data-access helpers\<close>

definition create_document :: "handle \<Rightarrow> oid \<Rightarrow> string \<Rightarrow> doc \<Rightarrow> error + (store \<times> string)" where
  \<comment> \<open>Modelled from the spec: \<^verbatim>\<open>database.create_document\<close> is not among the
      sources. It inserts the entity's fields as a new document into the named
      collection and returns the newly generated identifier as a string; it
      fails when the store is not available.\<close>
  "create_document db new_id collection_name fields =
     (case db of
        None \<Rightarrow> Inl (Unhandled ''Database not available'')
      | Some s \<Rightarrow>
          Inr (s(collection_name := insert_one new_id fields (s collection_name)),
               py_str (VOid new_id)))"

definition get_documents :: "handle \<Rightarrow> string \<Rightarrow> doc \<Rightarrow> error + doc list" where
  \<comment> \<open>Modelled from the spec: \<^verbatim>\<open>database.get_documents\<close> is not among the
      sources. It returns all documents of the named collection that match the
      equality filter, identifiers in raw form, with no sort applied.\<close>
  "get_documents db collection_name flt =
     (case db of
        None \<Rightarrow> Inl (Unhandled ''Database not available'')
      | Some s \<Rightarrow> Inr (find_many flt (s collection_name)))"

section \<open>Authentication handlers\<close>

datatype LoginRequest = LoginRequest (email: string) (password: string)

datatype SignupRequest =
  SignupRequest (email: string) (password: string) (name: "string option")

datatype AuthResponse =
  AuthResponse (user_id: string) (email: string) (name: "string option") (role: string)

datatype User =
  User (email: string) (password_hash: string) (name: "string option") (role: string)
    (preferences: doc)

definition opt_str :: "string option \<Rightarrow> val" where
  "opt_str x = (case x of None \<Rightarrow> VNone | Some s \<Rightarrow> VStr s)"

definition dump_User :: "User \<Rightarrow> doc" where
  \<comment> \<open>the fields of the entity, as the store receives them\<close>
  "dump_User u =
     [(''email'', VStr (User.email u)),
      (''password_hash'', VStr (password_hash u)),
      (''name'', opt_str (User.name u)),
      (''role'', VStr (User.role u)),
      (''preferences'', VDict (preferences u))]"

text \<open>
  \<^verbatim>\<open>pwd_context\<close> belongs to the hashing library. It is a parameter here:
  a salted hash (the salt is drawn by the library, so it is an input) and a
  verification. Either may raise; \<open>Inl\<close> carries the name of the exception,
  which leaves the handler unhandled.
\<close>

record CryptContext =
  hash :: "string \<Rightarrow> string \<Rightarrow> string + string"
  verify :: "string \<Rightarrow> string \<Rightarrow> string + bool"

definition hash_password :: "CryptContext \<Rightarrow> string \<Rightarrow> string \<Rightarrow> error + string" where
  "hash_password pwd_context salt plain =
     (case hash pwd_context salt plain of
        Inl exn \<Rightarrow> Inl (Unhandled exn)
      | Inr h \<Rightarrow> Inr h)"

definition verify_password :: "CryptContext \<Rightarrow> string \<Rightarrow> val \<Rightarrow> error + bool" where
  \<comment> \<open>the stored value is whatever the document holds: the library answers
      False for None and raises on anything else that is not a string\<close>
  "verify_password pwd_context plain hashed =
     (case hashed of
        VStr h \<Rightarrow>
          (case verify pwd_context plain h of
             Inl exn \<Rightarrow> Inl (Unhandled exn)
           | Inr ok \<Rightarrow> Inr ok)
      | VNone \<Rightarrow> Inr False
      | _ \<Rightarrow> Inl (Unhandled ''TypeError''))"

definition signup ::
  "CryptContext \<Rightarrow> truthiness \<Rightarrow> string \<Rightarrow> oid \<Rightarrow> handle \<Rightarrow> SignupRequest
     \<Rightarrow> error + (store \<times> AuthResponse)" where
  "signup pwd_context t salt new_id db payload =
     (case if_db t db
             (\<lambda>s. find_one [(''email'', VStr (SignupRequest.email payload))] (s ''user''))
             None of
        Inl e \<Rightarrow> Inl e
      | Inr existing \<Rightarrow>
          if truthy_doc existing
          then Inl (HTTPException 400 ''Email already registered'')
          else (case hash_password pwd_context salt (SignupRequest.password payload) of
                  Inl e \<Rightarrow> Inl e
                | Inr h \<Rightarrow>
                    (case create_document db new_id ''user''
                            (dump_User (User (SignupRequest.email payload) h
                                          (SignupRequest.name payload) ''user'' [])) of
                       Inl e \<Rightarrow> Inl e
                     | Inr (s', uid) \<Rightarrow>
                         Inr (s', AuthResponse uid (SignupRequest.email payload)
                                    (SignupRequest.name payload) ''user''))))"

definition make_AuthResponse :: "string \<Rightarrow> val \<Rightarrow> val \<Rightarrow> val \<Rightarrow> error + AuthResponse" where
  \<comment> \<open>\<^verbatim>\<open>AuthResponse(user_id=..., email=..., name=..., role=...)\<close> on values read
      from a document: the response model wants strings, and None only for the name\<close>
  "make_AuthResponse uid e n r =
     (case e of
        VStr e' \<Rightarrow>
          (case r of
             VStr r' \<Rightarrow>
               (case n of
                  VNone \<Rightarrow> Inr (AuthResponse uid e' None r')
                | VStr n' \<Rightarrow> Inr (AuthResponse uid e' (Some n') r')
                | _ \<Rightarrow> Inl (Unhandled ''ValidationError''))
           | _ \<Rightarrow> Inl (Unhandled ''ValidationError''))
      | _ \<Rightarrow> Inl (Unhandled ''ValidationError''))"

definition login ::
  "CryptContext \<Rightarrow> truthiness \<Rightarrow> handle \<Rightarrow> LoginRequest \<Rightarrow> error + AuthResponse" where
  "login pwd_context t db payload =
     (case if_db t db
             (\<lambda>s. find_one [(''email'', VStr (LoginRequest.email payload))] (s ''user''))
             None of
        Inl e \<Rightarrow> Inl e
      | Inr doc \<Rightarrow>
          (case doc of
             None \<Rightarrow> Inl (HTTPException 401 ''Invalid credentials'')
           | Some d \<Rightarrow>
               if d = [] then Inl (HTTPException 401 ''Invalid credentials'')
               else (case verify_password pwd_context (LoginRequest.password payload)
                            (get_default d ''password_hash'' (VStr [])) of
                       Inl e \<Rightarrow> Inl e
                     | Inr ok \<Rightarrow>
                         if \<not> ok then Inl (HTTPException 401 ''Invalid credentials'')
                         else make_AuthResponse (py_str (get d ''_id'')) (get d ''email'')
                                (get d ''name'') (get_default d ''role'' (VStr ''user'')))))"

section \<open>Step content handlers\<close>

datatype Step =
  Step (key: string) (title: string) (description: "string option") (content: string)
    (resources: "(string \<times> string) list list") (estimate_days: "int option")
    (cost_estimate: "string option") (order: int)

definition dump_Step :: "Step \<Rightarrow> doc" where
  "dump_Step st =
     [(''key'', VStr (key st)),
      (''title'', VStr (title st)),
      (''description'', opt_str (description st)),
      (''content'', VStr (content st)),
      (''resources'', VList (map (\<lambda>r. VDict (map (\<lambda>(k, v). (k, VStr v)) r)) (resources st))),
      (''estimate_days'', (case estimate_days st of None \<Rightarrow> VNone | Some n \<Rightarrow> VInt n)),
      (''cost_estimate'', opt_str (cost_estimate st)),
      (''order'', VInt (order st))]"

definition normalize_id :: "doc \<Rightarrow> doc" where
  \<comment> \<open>\<^verbatim>\<open>it["id"] = str(it.get("_id")); it.pop("_id", None)\<close>\<close>
  "normalize_id it = pop ''_id'' (setitem ''id'' (VStr (py_str (get it ''_id''))) it)"

text \<open>
  \<^verbatim>\<open>items.sort(key=lambda x: x.get("order", 0))\<close>. Python's sort is stable.
  It compares keys with \<^verbatim>\<open><\<close>: integers (and booleans, which are integers)
  among themselves, strings among themselves; any other pair raises
  \<^verbatim>\<open>TypeError\<close>. A list of fewer than two items is never compared.
  Python also compares lists among themselves; keys that are lists are not
  modelled and stand with the keys that raise.
\<close>

definition order_key :: "doc \<Rightarrow> val" where
  "order_key x = get_default x ''order'' (VInt 0)"

fun is_num :: "val \<Rightarrow> bool" where
  "is_num (VInt i) = True"
| "is_num (VBool b) = True"
| "is_num _ = False"

fun num_of :: "val \<Rightarrow> int" where
  "num_of (VInt i) = i"
| "num_of (VBool b) = (if b then 1 else 0)"
| "num_of _ = 0"

fun is_str :: "val \<Rightarrow> bool" where
  "is_str (VStr s) = True"
| "is_str _ = False"

fun str_of :: "val \<Rightarrow> string" where
  "str_of (VStr s) = s"
| "str_of _ = []"

definition py_sort :: "(doc \<Rightarrow> val) \<Rightarrow> doc list \<Rightarrow> error + doc list" where
  "py_sort k xs =
     (if length xs < 2 then Inr xs
      else if list_all (\<lambda>x. is_num (k x)) xs then Inr (sort_key (\<lambda>x. num_of (k x)) xs)
      else if list_all (\<lambda>x. is_str (k x)) xs then Inr (sort_key (\<lambda>x. str_of (k x)) xs)
      else Inl (Unhandled ''TypeError''))"

definition list_steps :: "truthiness \<Rightarrow> handle \<Rightarrow> error + doc list" where
  "list_steps t db =
     (case if_db t db (\<lambda>s. get_documents db ''step'' []) (Inr []) of
        Inl e \<Rightarrow> Inl e
      | Inr got \<Rightarrow>
          (case got of
             Inl e \<Rightarrow> Inl e
           | Inr its \<Rightarrow> py_sort order_key (map normalize_id its)))"

definition create_step :: "handle \<Rightarrow> oid \<Rightarrow> Step \<Rightarrow> error + (store \<times> doc)" where
  "create_step db new_id step =
     (case create_document db new_id ''step'' (dump_Step step) of
        Inl e \<Rightarrow> Inl e
      | Inr (s', step_id) \<Rightarrow> Inr (s', [(''id'', VStr step_id)]))"

definition update_step :: "handle \<Rightarrow> string \<Rightarrow> doc \<Rightarrow> error + (store \<times> doc)" where
  "update_step db step_id payload =
     (case db of
        None \<Rightarrow> Inl (HTTPException 500 ''Database not available'')
      | Some s \<Rightarrow>
          (case ObjectId step_id of
             Inl e \<Rightarrow> Inl e
           | Inr i \<Rightarrow>
               (case update_one [(''_id'', VOid i)] payload None (s ''step'') of
                  Inl e \<Rightarrow> Inl e
                | Inr (c', matched_count) \<Rightarrow>
                    if matched_count = 0 then Inl (HTTPException 404 ''Step not found'')
                    else Inr (s(''step'' := c'), [(''updated'', VBool True)]))))"

definition delete_step :: "handle \<Rightarrow> string \<Rightarrow> error + (store \<times> doc)" where
  "delete_step db step_id =
     (case db of
        None \<Rightarrow> Inl (HTTPException 500 ''Database not available'')
      | Some s \<Rightarrow>
          (case ObjectId step_id of
             Inl e \<Rightarrow> Inl e
           | Inr i \<Rightarrow>
               (case delete_one [(''_id'', VOid i)] (s ''step'') of
                  (c', deleted_count) \<Rightarrow>
                    if deleted_count = 0 then Inl (HTTPException 404 ''Step not found'')
                    else Inr (s(''step'' := c'), [(''deleted'', VBool True)]))))"

section \<open>Progress handlers\<close>

datatype ProgressUpdate = ProgressUpdate (user_id: string) (items: "(string \<times> bool) list")

definition dump_items :: "(string \<times> bool) list \<Rightarrow> val" where
  "dump_items m = VDict (map (\<lambda>(k, b). (k, VBool b)) m)"

definition get_progress :: "handle \<Rightarrow> string \<Rightarrow> error + doc" where
  "get_progress db uid =
     (case db of
        None \<Rightarrow> Inr [(''items'', VDict [])]
      | Some s \<Rightarrow>
          (case find_one [(''user_id'', VStr uid)] (s ''progress'') of
             None \<Rightarrow> Inr [(''items'', VDict [])]
           | Some d \<Rightarrow>
               if d = [] then Inr [(''items'', VDict [])]
               else Inr [(''items'', get_default d ''items'' (VDict []))]))"

definition set_progress :: "nat \<Rightarrow> oid \<Rightarrow> handle \<Rightarrow> ProgressUpdate \<Rightarrow> error + (store \<times> doc)" where
  \<comment> \<open>\<open>utcnow\<close> is the clock read by \<^verbatim>\<open>datetime.utcnow()\<close>, \<open>new_id\<close> the
      identifier the store generates if it has to insert\<close>
  "set_progress utcnow new_id db payload =
     (case db of
        None \<Rightarrow> Inl (HTTPException 500 ''Database not available'')
      | Some s \<Rightarrow>
          (case update_one [(''user_id'', VStr (ProgressUpdate.user_id payload))]
                  [(''items'', dump_items (items payload)), (''updated_at'', VTime utcnow)]
                  (Some new_id) (s ''progress'') of
             Inl e \<Rightarrow> Inl e
           | Inr (c', n) \<Rightarrow> Inr (s(''progress'' := c'), [(''saved'', VBool True)])))"

section \<open>Notification handlers\<close>

datatype NotificationIn =
  NotificationIn (user_id: string) (message: string) (due_date: "string option")

datatype Notification =
  Notification (user_id: string) (type: string) (message: string) (due_date: "string option")

definition dump_Notification :: "Notification \<Rightarrow> doc" where
  "dump_Notification n =
     [(''user_id'', VStr (Notification.user_id n)),
      (''type'', VStr (type n)),
      (''message'', VStr (Notification.message n)),
      (''due_date'', opt_str (Notification.due_date n))]"

definition create_notification :: "handle \<Rightarrow> oid \<Rightarrow> NotificationIn \<Rightarrow> error + (store \<times> doc)" where
  "create_notification db new_id payload =
     (let notif = Notification (NotificationIn.user_id payload) ''reminder''
                    (NotificationIn.message payload) (NotificationIn.due_date payload)
      in case create_document db new_id ''notification'' (dump_Notification notif) of
           Inl e \<Rightarrow> Inl e
         | Inr (s', notif_id) \<Rightarrow> Inr (s', [(''id'', VStr notif_id)]))"

definition list_notifications :: "truthiness \<Rightarrow> handle \<Rightarrow> string \<Rightarrow> error + doc list" where
  "list_notifications t db uid =
     (case if_db t db (\<lambda>s. get_documents db ''notification'' [(''user_id'', VStr uid)])
             (Inr []) of
        Inl e \<Rightarrow> Inl e
      | Inr got \<Rightarrow>
          (case got of
             Inl e \<Rightarrow> Inl e
           | Inr its \<Rightarrow> Inr (map normalize_id its)))"

section \<open>Facts about the store operations\<close>

lemma find_one_None_iff:
  "find_one [(k, v)] c = None \<longleftrightarrow> (\<forall>d\<in>set c. map_of d k \<noteq> Some v)"
  by (auto simp: find_one_def find_None_iff matches_def)

lemma find_one_Some_field:
  "find_one [(k, v)] c = Some d \<Longrightarrow> map_of d k = Some v \<and> d \<in> set c"
  by (auto simp: find_one_def find_Some_iff matches_def)

lemma find_one_Some_nonempty: "find_one [(k, v)] c = Some d \<Longrightarrow> d \<noteq> []"
  by (auto dest: find_one_Some_field)

lemma truthy_find_one:
  "truthy_doc (find_one [(k, v)] c) \<longleftrightarrow> (\<exists>d\<in>set c. map_of d k = Some v)"
proof (cases "find_one [(k, v)] c")
  case None
  then show ?thesis by (simp add: truthy_doc_def find_one_None_iff [symmetric])
next
  case (Some d)
  then show ?thesis
    using find_one_Some_field [OF Some] by (auto simp: truthy_doc_def)
qed

lemma find_one_append_new:
  "find_one [(k, v)] c = None \<Longrightarrow> map_of d k = Some v \<Longrightarrow> find_one [(k, v)] (c @ [d]) = Some d"
  by (induction c) (auto simp: find_one_def matches_def)

section \<open>Authentication\<close>

lemma if_db_None [simp]: "if_db t None f y = Inr y"
  by (simp add: if_db_def)

lemma if_db_Truthy [simp]: "if_db Truthy (Some s) f y = Inr (f s)"
  by (simp add: if_db_def)

lemma if_db_NoTruthValue [simp]:
  "if_db NoTruthValue (Some s) f y = Inl (Unhandled ''NotImplementedError'')"
  by (simp add: if_db_def)

lemma signup_Inr_D:
  assumes "signup pwd_context Truthy salt new_id db payload = Inr (s', r)"
  shows "\<exists>s h. db = Some s
           \<and> find_one [(''email'', VStr (SignupRequest.email payload))] (s ''user'') = None
           \<and> hash pwd_context salt (SignupRequest.password payload) = Inr h
           \<and> s' = s(''user'' := s ''user'' @
                 [(''_id'', VOid new_id) #
                  dump_User (User (SignupRequest.email payload) h (SignupRequest.name payload) ''user'' [])])
           \<and> r = AuthResponse new_id (SignupRequest.email payload) (SignupRequest.name payload) ''user''"
proof (cases db)
  case None
  with assms show ?thesis
    by (simp add: signup_def truthy_doc_def create_document_def split: sum.splits)
next
  case (Some s)
  let ?f = "find_one [(''email'', VStr (SignupRequest.email payload))] (s ''user'')"
  from assms Some have nt: "\<not> truthy_doc ?f"
    by (auto simp: signup_def split: if_splits)
  then have "?f = None"
    by (cases ?f) (auto simp: truthy_doc_def dest: find_one_Some_nonempty)
  with assms Some show ?thesis
    by (auto simp: signup_def truthy_doc_def hash_password_def create_document_def
          insert_one_def split: sum.splits)
qed

text \<open>
  Where the handle's truth test answers true, the authentication handlers do
  what the specification says of them. After a successful signup, a login with
  the same email and password returns the identifier signup returned, with the
  email, the name and the stored role, provided the hash made at signup verifies
  against the password it was made from; a login fails with 401 when no user
  document has the email, and when the password does not verify against the hash
  of the document found.
\<close>

lemma login_after_signup_truthy:
  "(signup pwd_context Truthy salt new_id db payload = Inr (s', r)
      \<longrightarrow> (\<forall>h. hash pwd_context salt (SignupRequest.password payload) = Inr h
                \<longrightarrow> verify pwd_context (SignupRequest.password payload) h = Inr True)
      \<longrightarrow> login pwd_context Truthy (Some s')
             (LoginRequest (SignupRequest.email payload) (SignupRequest.password payload))
           = Inr (AuthResponse (AuthResponse.user_id r) (SignupRequest.email payload)
                    (SignupRequest.name payload) ''user''))
   \<and> ((\<forall>s. db = Some s \<longrightarrow>
          (\<forall>d\<in>set (s ''user''). map_of d ''email'' \<noteq> Some (VStr (LoginRequest.email lp))))
      \<longrightarrow> login pwd_context Truthy db lp = Inl (HTTPException 401 ''Invalid credentials''))
   \<and> (db = Some s
      \<longrightarrow> find_one [(''email'', VStr (LoginRequest.email lp))] (s ''user'') = Some d
      \<longrightarrow> verify_password pwd_context (LoginRequest.password lp)
            (get_default d ''password_hash'' (VStr [])) = Inr False
      \<longrightarrow> login pwd_context Truthy db lp = Inl (HTTPException 401 ''Invalid credentials''))"
proof (intro conjI impI)
  assume ok: "signup pwd_context Truthy salt new_id db payload = Inr (s', r)"
    and rt: "\<forall>h. hash pwd_context salt (SignupRequest.password payload) = Inr h
                \<longrightarrow> verify pwd_context (SignupRequest.password payload) h = Inr True"
  from signup_Inr_D [OF ok] obtain s h where
    none: "find_one [(''email'', VStr (SignupRequest.email payload))] (s ''user'') = None"
    and h: "hash pwd_context salt (SignupRequest.password payload) = Inr h"
    and s': "s' = s(''user'' := s ''user'' @
                 [(''_id'', VOid new_id) #
                  dump_User (User (SignupRequest.email payload) h (SignupRequest.name payload) ''user'' [])])"
    and r: "r = AuthResponse new_id (SignupRequest.email payload) (SignupRequest.name payload) ''user''"
    by blast
  let ?d = "(''_id'', VOid new_id) #
             dump_User (User (SignupRequest.email payload) h (SignupRequest.name payload) ''user'' [])"
  have "map_of ?d ''email'' = Some (VStr (SignupRequest.email payload))"
    by (simp add: dump_User_def)
  from find_one_append_new [OF none this]
  have found: "find_one [(''email'', VStr (SignupRequest.email payload))] (s' ''user'') = Some ?d"
    by (simp add: s')
  from rt h have v: "verify pwd_context (SignupRequest.password payload) h = Inr True"
    by blast
  show "login pwd_context Truthy (Some s')
          (LoginRequest (SignupRequest.email payload) (SignupRequest.password payload))
        = Inr (AuthResponse (AuthResponse.user_id r) (SignupRequest.email payload)
                 (SignupRequest.name payload) ''user'')"
    by (cases "SignupRequest.name payload")
       (simp_all add: login_def found r dump_User_def get_default_def get_def
          verify_password_def v make_AuthResponse_def opt_str_def)
next
  assume "\<forall>s. db = Some s \<longrightarrow>
          (\<forall>d\<in>set (s ''user''). map_of d ''email'' \<noteq> Some (VStr (LoginRequest.email lp)))"
  then show "login pwd_context Truthy db lp = Inl (HTTPException 401 ''Invalid credentials'')"
    by (cases db) (simp_all add: login_def find_one_None_iff [THEN iffD2])
next
  assume "db = Some s"
    and "find_one [(''email'', VStr (LoginRequest.email lp))] (s ''user'') = Some d"
    and "verify_password pwd_context (LoginRequest.password lp)
            (get_default d ''password_hash'' (VStr [])) = Inr False"
  then show "login pwd_context Truthy db lp = Inl (HTTPException 401 ''Invalid credentials'')"
    by (simp add: login_def)
qed

text \<open>
  With such a handle, signup fails with the conflict error (400) exactly when a
  user document with that exact email exists, and after a successful signup a
  second signup with the same email fails with the conflict, whatever its
  password, name, salt or hashing context.
\<close>

lemma signup_conflict_truthy:
  "(signup pwd_context Truthy salt new_id db payload = Inl (HTTPException 400 ''Email already registered'')
      \<longleftrightarrow> (\<exists>s. db = Some s \<and>
             (\<exists>d\<in>set (s ''user''). map_of d ''email'' = Some (VStr (SignupRequest.email payload)))))
   \<and> (signup pwd_context Truthy salt new_id db payload = Inr (s', r)
        \<longrightarrow> SignupRequest.email payload' = SignupRequest.email payload
        \<longrightarrow> signup pwd_context' Truthy salt' new_id' (Some s') payload'
              = Inl (HTTPException 400 ''Email already registered''))"
proof (intro conjI impI)
  show "signup pwd_context Truthy salt new_id db payload = Inl (HTTPException 400 ''Email already registered'')
      \<longleftrightarrow> (\<exists>s. db = Some s \<and>
             (\<exists>d\<in>set (s ''user''). map_of d ''email'' = Some (VStr (SignupRequest.email payload))))"
    by (cases db)
       (auto simp: signup_def truthy_find_one hash_password_def create_document_def
             truthy_doc_def [of None] split: sum.splits)
next
  assume ok: "signup pwd_context Truthy salt new_id db payload = Inr (s', r)"
    and same: "SignupRequest.email payload' = SignupRequest.email payload"
  from signup_Inr_D [OF ok] obtain s h where
    s': "s' = s(''user'' := s ''user'' @
                 [(''_id'', VOid new_id) #
                  dump_User (User (SignupRequest.email payload) h (SignupRequest.name payload) ''user'' [])])"
    by blast
  have "\<exists>d\<in>set (s' ''user''). map_of d ''email'' = Some (VStr (SignupRequest.email payload'))"
    by (simp add: s' dump_User_def same)
  then show "signup pwd_context' Truthy salt' new_id' (Some s') payload'
              = Inl (HTTPException 400 ''Email already registered'')"
    by (simp add: signup_def truthy_find_one)
qed

text \<open>
  C1. The code breaks the claim. \<^verbatim>\<open>signup\<close> and \<^verbatim>\<open>login\<close> look the user
  up with \<^verbatim>\<open>db["user"].find_one(...) if db else None\<close>. Where the database
  object refuses the truth test, as a \<^verbatim>\<open>pymongo\<close> 4 \<^verbatim>\<open>Database\<close> does, both
  handlers end in the unhandled \<^verbatim>\<open>NotImplementedError\<close> on every request with
  the store present: no pair is ever signed up or logged in, and a login with
  an unknown email or a wrong password is not answered with 401.
\<close>

theorem login_after_signup_raises:
  "signup pwd_context NoTruthValue salt new_id (Some s) payload
     = Inl (Unhandled ''NotImplementedError'')
   \<and> login pwd_context NoTruthValue (Some s) lp = Inl (Unhandled ''NotImplementedError'')
   \<and> login pwd_context NoTruthValue (Some s) lp \<noteq> Inl (HTTPException 401 ''Invalid credentials'')"
  by (simp add: signup_def login_def)

theorem login_after_signup_raises_witness:
  "signup \<lparr>hash = (\<lambda>salt p. Inr (salt @ p)), verify = (\<lambda>p h. Inr (drop 2 h = p))\<rparr>
      NoTruthValue ''s1'' ''65a1b2c3d4e5f60718293a4b'' (Some (\<lambda>c. []))
      (SignupRequest ''a@example.org'' ''secret'' None)
     = Inl (Unhandled ''NotImplementedError'')
   \<and> login \<lparr>hash = (\<lambda>salt p. Inr (salt @ p)), verify = (\<lambda>p h. Inr (drop 2 h = p))\<rparr>
      NoTruthValue (Some (\<lambda>c. [])) (LoginRequest ''b@example.org'' ''secret'')
     = Inl (Unhandled ''NotImplementedError'')"
  using login_after_signup_raises
    [of "\<lparr>hash = (\<lambda>salt p. Inr (salt @ p)), verify = (\<lambda>p h. Inr (drop 2 h = p))\<rparr>"
        "''s1''" "''65a1b2c3d4e5f60718293a4b''" "\<lambda>c. []"
        "SignupRequest ''a@example.org'' ''secret'' None"
        "LoginRequest ''b@example.org'' ''secret''"]
  by blast

text \<open>
  C2. The code breaks the claim, by the same truth test. With the store
  present and a database object that refuses the test, signup ends in the
  unhandled \<^verbatim>\<open>NotImplementedError\<close> before it has looked for the email: the
  first signup does not succeed, and no signup is answered with the conflict
  error, whether or not the email is registered.
\<close>

theorem signup_conflict_raises:
  "signup pwd_context NoTruthValue salt new_id (Some s) payload
     \<noteq> Inl (HTTPException 400 ''Email already registered'')
   \<and> (\<forall>s' r. signup pwd_context NoTruthValue salt new_id (Some s) payload \<noteq> Inr (s', r))"
  by (simp add: signup_def)

theorem signup_conflict_raises_witness:
  "signup \<lparr>hash = (\<lambda>salt p. Inr (salt @ p)), verify = (\<lambda>p h. Inr (drop 2 h = p))\<rparr>
      NoTruthValue ''s2'' ''65a1b2c3d4e5f60718293a4c''
      (Some ((\<lambda>c. [])(''user'' :=
              [[(''_id'', VOid ''65a1b2c3d4e5f60718293a4b''), (''email'', VStr ''a@example.org''),
                (''password_hash'', VStr ''s1secret''), (''name'', VNone),
                (''role'', VStr ''user''), (''preferences'', VDict [])]])))
      (SignupRequest ''a@example.org'' ''another'' (Some ''Ann''))
     \<noteq> Inl (HTTPException 400 ''Email already registered'')"
  using signup_conflict_raises
    [of "\<lparr>hash = (\<lambda>salt p. Inr (salt @ p)), verify = (\<lambda>p h. Inr (drop 2 h = p))\<rparr>"
        "''s2''" "''65a1b2c3d4e5f60718293a4c''"
        "(\<lambda>c. [])(''user'' :=
              [[(''_id'', VOid ''65a1b2c3d4e5f60718293a4b''), (''email'', VStr ''a@example.org''),
                (''password_hash'', VStr ''s1secret''), (''name'', VNone),
                (''role'', VStr ''user''), (''preferences'', VDict [])]])"
        "SignupRequest ''a@example.org'' ''another'' (Some ''Ann'')"]
  by blast

text \<open>
  C9. With the store handle absent, login fails with 401 "Invalid credentials"
  for every credential pair: it never reports the store as unavailable.
\<close>

theorem login_without_store:
  "login pwd_context t None payload = Inl (HTTPException 401 ''Invalid credentials'')"
  by (simp add: login_def)

theorem login_without_store_witness:
  "login \<lparr>hash = (\<lambda>salt p. Inr (salt @ p)), verify = (\<lambda>p h. Inr True)\<rparr> NoTruthValue None
     (LoginRequest ''a@example.org'' ''secret'') = Inl (HTTPException 401 ''Invalid credentials'')"
  using login_without_store [of "\<lparr>hash = (\<lambda>salt p. Inr (salt @ p)), verify = (\<lambda>p h. Inr True)\<rparr>"
      NoTruthValue "LoginRequest ''a@example.org'' ''secret''"]
  by simp



section \<open>Progress\<close>

text \<open>
  C10. Get-progress never fails. With the store handle absent it returns the
  empty items map, where set-progress fails with 500 "Database not available".
\<close>

theorem get_progress_never_fails:
  "(\<exists>r. get_progress db uid = Inr r)
   \<and> get_progress None uid = Inr [(''items'', VDict [])]
   \<and> set_progress utcnow new_id None payload = Inl (HTTPException 500 ''Database not available'')"
  by (auto simp: get_progress_def set_progress_def split: option.splits)

theorem get_progress_never_fails_witness:
  "get_progress (Some (\<lambda>c. [])) ''u1'' = Inr [(''items'', VDict [])]
   \<and> get_progress None ''u1'' = Inr [(''items'', VDict [])]
   \<and> set_progress 1700000000 ''65a1b2c3d4e5f60718293a4b'' None
         (ProgressUpdate ''u1'' [(''visa'', True)])
       = Inl (HTTPException 500 ''Database not available'')"
  using get_progress_never_fails [of "Some (\<lambda>c. [])" "''u1''" 1700000000
      "''65a1b2c3d4e5f60718293a4b''" "ProgressUpdate ''u1'' [(''visa'', True)]"]
  by (simp add: get_progress_def find_one_def)

subsection \<open>Setting progress\<close>

lemma matches_single: "matches [(k, v)] d \<longleftrightarrow> map_of d k = Some v"
  by (simp add: matches_def)

lemma find_one_find_many:
  "find_one flt c = (case find_many flt c of [] \<Rightarrow> None | d # ds \<Rightarrow> Some d)"
  by (induction c) (auto simp: find_one_def find_many_def)

lemma split_path_plain: "CHR ''.'' \<notin> set k \<Longrightarrow> split_path k = [k]"
  by (induction k) auto

lemma set_field_plain: "CHR ''.'' \<notin> set k \<Longrightarrow> set_field k v d = Inr (AList.update k v d)"
  by (simp add: set_field_def split_path_plain split: option.splits)

lemma apply_set_progress:
  "apply_set [(''items'', v), (''updated_at'', VTime t)] d
     = Inr (AList.update ''updated_at'' (VTime t) (AList.update ''items'' v d))"
  by (simp add: set_field_plain)

lemma encodable_dump_items: "encodable (dump_items m)"
  by (induction m) (auto simp: dump_items_def)

lemma check_update_progress:
  "check_update [(''items'', dump_items m), (''updated_at'', VTime t)] = None"
  by (simp add: check_update_def encodable_dump_items split_path_plain)

lemma update_first_progress:
  "\<exists>c' n. update_first [(''user_id'', x)] [(''items'', v), (''updated_at'', VTime t)] c = Inr (c', n)
           \<and> n = (if find_many [(''user_id'', x)] c = [] then 0 else 1)
           \<and> (n = 0 \<longrightarrow> c' = c)
           \<and> find_many [(''user_id'', x)] c'
               = (case find_many [(''user_id'', x)] c of
                    [] \<Rightarrow> []
                  | d # ds \<Rightarrow> AList.update ''updated_at'' (VTime t) (AList.update ''items'' v d) # ds)"
proof (induction c)
  case Nil
  show ?case by (simp add: find_many_def)
next
  case (Cons d c)
  then obtain c' n where IH:
      "update_first [(''user_id'', x)] [(''items'', v), (''updated_at'', VTime t)] c = Inr (c', n)"
      "n = (if find_many [(''user_id'', x)] c = [] then 0 else 1)" "n = 0 \<longrightarrow> c' = c"
      "find_many [(''user_id'', x)] c'
         = (case find_many [(''user_id'', x)] c of
              [] \<Rightarrow> []
            | d # ds \<Rightarrow> AList.update ''updated_at'' (VTime t) (AList.update ''items'' v d) # ds)"
    by (elim exE conjE) (rule that)
  show ?case
  proof (cases "matches [(''user_id'', x)] d")
    case True
    then show ?thesis
      by (simp add: apply_set_progress find_many_def matches_single update_conv'
            del: apply_set.simps)
  next
    case False
    then show ?thesis
      using IH by (simp add: find_many_def)
  qed
qed

lemma upserted_progress:
  "upserted [(''user_id'', x)] [(''items'', v), (''updated_at'', VTime t)] new_id
     = Inr [(''_id'', VOid new_id), (''user_id'', x), (''items'', v), (''updated_at'', VTime t)]"
  by (simp add: upserted_def apply_set_progress del: apply_set.simps)

lemma update_one_progress:
  assumes "check_update [(''items'', v), (''updated_at'', VTime t)] = None"
  shows "\<exists>c' n. update_one [(''user_id'', x)] [(''items'', v), (''updated_at'', VTime t)]
                   (Some new_id) c = Inr (c', n)
           \<and> find_many [(''user_id'', x)] c'
               = (case find_many [(''user_id'', x)] c of
                    [] \<Rightarrow> [[(''_id'', VOid new_id), (''user_id'', x), (''items'', v),
                             (''updated_at'', VTime t)]]
                  | d # ds \<Rightarrow> AList.update ''updated_at'' (VTime t) (AList.update ''items'' v d) # ds)"
proof -
  from update_first_progress [of x v t c]
  obtain c' n where u:
      "update_first [(''user_id'', x)] [(''items'', v), (''updated_at'', VTime t)] c = Inr (c', n)"
      "n = (if find_many [(''user_id'', x)] c = [] then 0 else 1)" "n = 0 \<longrightarrow> c' = c"
      "find_many [(''user_id'', x)] c'
         = (case find_many [(''user_id'', x)] c of
              [] \<Rightarrow> []
            | d # ds \<Rightarrow> AList.update ''updated_at'' (VTime t) (AList.update ''items'' v d) # ds)"
    by (elim exE conjE) (rule that)
  show ?thesis
  proof (cases "find_many [(''user_id'', x)] c")
    case Nil
    with u have "n = 0" "c' = c" by simp_all
    then show ?thesis
      using u(1) Nil assms
      by (simp add: update_one_def upserted_progress find_many_def matches_single)
  next
    case (Cons d ds)
    with u have "n = 1" by simp
    then show ?thesis
      using u(1,4) Cons assms by (simp add: update_one_def)
  qed
qed

lemma set_progress_store:
  "\<exists>s1. set_progress t i (Some s) (ProgressUpdate u m) = Inr (s1, [(''saved'', VBool True)])
     \<and> find_many [(''user_id'', VStr u)] (s1 ''progress'')
         = (case find_many [(''user_id'', VStr u)] (s ''progress'') of
              [] \<Rightarrow> [[(''_id'', VOid i), (''user_id'', VStr u), (''items'', dump_items m),
                       (''updated_at'', VTime t)]]
            | d # ds \<Rightarrow> AList.update ''updated_at'' (VTime t)
                          (AList.update ''items'' (dump_items m) d) # ds)"
  using update_one_progress [where v = "dump_items m" and t = t and x = "VStr u"
      and new_id = i and c = "s ''progress''", OF check_update_progress]
  by (auto simp: set_progress_def)

lemma get_progress_found:
  assumes "find_many [(''user_id'', VStr u)] (s ''progress'') = d # ds"
    and "map_of d ''items'' = Some v"
  shows "get_progress (Some s) u = Inr [(''items'', v)]"
proof -
  have f: "find_one [(''user_id'', VStr u)] (s ''progress'') = Some d"
    by (simp add: find_one_find_many assms)
  from assms(2) have "d \<noteq> []" by auto
  with f assms(2) show ?thesis
    by (simp add: get_progress_def get_default_def)
qed

text \<open>
  C3. Set-progress with a map, then get-progress for the same user, returns
  exactly that map; a second set-progress with another map replaces it, and
  get-progress returns exactly the second map. Each set leaves the time it was
  given on the user's first Progress document, and the number of documents of
  that user is one if there was none or one before, and unchanged otherwise.
\<close>

theorem progress_set_then_get:
  "\<exists>s1 s2 d1 d2.
      set_progress t1 i1 (Some s) (ProgressUpdate u m) = Inr (s1, [(''saved'', VBool True)])
    \<and> get_progress (Some s1) u = Inr [(''items'', dump_items m)]
    \<and> set_progress t2 i2 (Some s1) (ProgressUpdate u m') = Inr (s2, [(''saved'', VBool True)])
    \<and> get_progress (Some s2) u = Inr [(''items'', dump_items m')]
    \<and> find_one [(''user_id'', VStr u)] (s1 ''progress'') = Some d1
    \<and> map_of d1 ''updated_at'' = Some (VTime t1)
    \<and> find_one [(''user_id'', VStr u)] (s2 ''progress'') = Some d2
    \<and> map_of d2 ''updated_at'' = Some (VTime t2)
    \<and> length (find_many [(''user_id'', VStr u)] (s1 ''progress''))
        = max 1 (length (find_many [(''user_id'', VStr u)] (s ''progress'')))
    \<and> length (find_many [(''user_id'', VStr u)] (s2 ''progress''))
        = length (find_many [(''user_id'', VStr u)] (s1 ''progress''))"
proof -
  let ?F = "[(''user_id'', VStr u)]"
  from set_progress_store [of t1 i1 s u m] obtain s1 where
    s1: "set_progress t1 i1 (Some s) (ProgressUpdate u m) = Inr (s1, [(''saved'', VBool True)])"
    and f1: "find_many ?F (s1 ''progress'')
         = (case find_many ?F (s ''progress'') of
              [] \<Rightarrow> [[(''_id'', VOid i1), (''user_id'', VStr u), (''items'', dump_items m),
                       (''updated_at'', VTime t1)]]
            | d # ds \<Rightarrow> AList.update ''updated_at'' (VTime t1)
                          (AList.update ''items'' (dump_items m) d) # ds)"
    by (elim exE conjE) (rule that)
  from f1 obtain e1 ds1 where g1: "find_many ?F (s1 ''progress'') = e1 # ds1"
    and i1: "map_of e1 ''items'' = Some (dump_items m)"
    and u1: "map_of e1 ''updated_at'' = Some (VTime t1)"
    and l1: "length (find_many ?F (s1 ''progress'')) = max 1 (length (find_many ?F (s ''progress'')))"
    by (cases "find_many ?F (s ''progress'')") (auto simp: update_conv')
  from set_progress_store [of t2 i2 s1 u m'] obtain s2 where
    s2: "set_progress t2 i2 (Some s1) (ProgressUpdate u m') = Inr (s2, [(''saved'', VBool True)])"
    and f2: "find_many ?F (s2 ''progress'')
         = (case find_many ?F (s1 ''progress'') of
              [] \<Rightarrow> [[(''_id'', VOid i2), (''user_id'', VStr u), (''items'', dump_items m'),
                       (''updated_at'', VTime t2)]]
            | d # ds \<Rightarrow> AList.update ''updated_at'' (VTime t2)
                          (AList.update ''items'' (dump_items m') d) # ds)"
    by (elim exE conjE) (rule that)
  let ?e2 = "AList.update ''updated_at'' (VTime t2) (AList.update ''items'' (dump_items m') e1)"
  from f2 g1 have g2: "find_many ?F (s2 ''progress'') = ?e2 # ds1"
    by simp
  have i2: "map_of ?e2 ''items'' = Some (dump_items m')"
    and u2: "map_of ?e2 ''updated_at'' = Some (VTime t2)"
    by (simp_all add: update_conv')
  have l2: "length (find_many ?F (s2 ''progress'')) = length (find_many ?F (s1 ''progress''))"
    by (simp add: g1 g2)
  have o1: "find_one ?F (s1 ''progress'') = Some e1"
    and o2: "find_one ?F (s2 ''progress'') = Some ?e2"
    by (simp_all add: find_one_find_many g1 g2)
  have r1: "get_progress (Some s1) u = Inr [(''items'', dump_items m)]"
    using g1 i1 by (rule get_progress_found [where s = s1])
  have r2: "get_progress (Some s2) u = Inr [(''items'', dump_items m')]"
    using g2 i2 by (rule get_progress_found [where s = s2])
  from s1 r1 s2 r2 o1 u1 o2 u2 l1 l2 show ?thesis
    by (intro exI [of _ s1] exI [of _ s2] exI [of _ e1] exI [of _ ?e2] conjI)
qed

theorem progress_set_then_get_witness:
  "set_progress 100 ''65a1b2c3d4e5f60718293a4b'' (Some (\<lambda>c. []))
      (ProgressUpdate ''u1'' [(''a'', True), (''b'', False)])
     = Inr ((\<lambda>c. [])(''progress'' :=
              [[(''_id'', VOid ''65a1b2c3d4e5f60718293a4b''), (''user_id'', VStr ''u1''),
                (''items'', VDict [(''a'', VBool True), (''b'', VBool False)]),
                (''updated_at'', VTime 100)]]),
            [(''saved'', VBool True)])
   \<and> get_progress (Some ((\<lambda>c. [])(''progress'' :=
              [[(''_id'', VOid ''65a1b2c3d4e5f60718293a4b''), (''user_id'', VStr ''u1''),
                (''items'', VDict [(''a'', VBool True), (''b'', VBool False)]),
                (''updated_at'', VTime 100)]]))) ''u1''
     = Inr [(''items'', VDict [(''a'', VBool True), (''b'', VBool False)])]
   \<and> set_progress 200 ''65a1b2c3d4e5f60718293a4c''
      (Some ((\<lambda>c. [])(''progress'' :=
              [[(''_id'', VOid ''65a1b2c3d4e5f60718293a4b''), (''user_id'', VStr ''u1''),
                (''items'', VDict [(''a'', VBool True), (''b'', VBool False)]),
                (''updated_at'', VTime 100)]])))
      (ProgressUpdate ''u1'' [(''a'', True)])
     = Inr ((\<lambda>c. [])(''progress'' :=
              [[(''_id'', VOid ''65a1b2c3d4e5f60718293a4b''), (''user_id'', VStr ''u1''),
                (''items'', VDict [(''a'', VBool True)]), (''updated_at'', VTime 200)]]),
            [(''saved'', VBool True)])
   \<and> get_progress (Some ((\<lambda>c. [])(''progress'' :=
              [[(''_id'', VOid ''65a1b2c3d4e5f60718293a4b''), (''user_id'', VStr ''u1''),
                (''items'', VDict [(''a'', VBool True)]), (''updated_at'', VTime 200)]]))) ''u1''
     = Inr [(''items'', VDict [(''a'', VBool True)])]"
proof -
  let ?S1 = "(\<lambda>c. [])(''progress'' :=
              [[(''_id'', VOid ''65a1b2c3d4e5f60718293a4b''), (''user_id'', VStr ''u1''),
                (''items'', VDict [(''a'', VBool True), (''b'', VBool False)]),
                (''updated_at'', VTime 100)]])"
  let ?S2 = "(\<lambda>c. [])(''progress'' :=
              [[(''_id'', VOid ''65a1b2c3d4e5f60718293a4b''), (''user_id'', VStr ''u1''),
                (''items'', VDict [(''a'', VBool True)]), (''updated_at'', VTime 200)]])"
  have a: "set_progress 100 ''65a1b2c3d4e5f60718293a4b'' (Some (\<lambda>c. []))
      (ProgressUpdate ''u1'' [(''a'', True), (''b'', False)]) = Inr (?S1, [(''saved'', VBool True)])"
    by (simp add: set_progress_def update_one_def check_update_def upserted_def
          set_field_plain dump_items_def)
  have b: "set_progress 200 ''65a1b2c3d4e5f60718293a4c'' (Some ?S1)
      (ProgressUpdate ''u1'' [(''a'', True)]) = Inr (?S2, [(''saved'', VBool True)])"
    by (simp add: set_progress_def update_one_def check_update_def set_field_plain
          dump_items_def matches_def)
  from progress_set_then_get [of 100 "''65a1b2c3d4e5f60718293a4b''" "\<lambda>c. []" "''u1''"
      "[(''a'', True), (''b'', False)]" 200 "''65a1b2c3d4e5f60718293a4c''" "[(''a'', True)]"]
  obtain s1 s2 where
    p1: "set_progress 100 ''65a1b2c3d4e5f60718293a4b'' (Some (\<lambda>c. []))
      (ProgressUpdate ''u1'' [(''a'', True), (''b'', False)]) = Inr (s1, [(''saved'', VBool True)])"
    and g1: "get_progress (Some s1) ''u1'' = Inr [(''items'', dump_items [(''a'', True), (''b'', False)])]"
    and p2: "set_progress 200 ''65a1b2c3d4e5f60718293a4c'' (Some s1)
      (ProgressUpdate ''u1'' [(''a'', True)]) = Inr (s2, [(''saved'', VBool True)])"
    and g2: "get_progress (Some s2) ''u1'' = Inr [(''items'', dump_items [(''a'', True)])]"
    by (elim exE conjE) (rule that)
  have e1: "s1 = ?S1"
    using p1 unfolding a by (simp only: sum.inject prod.inject simp_thms)
  have e2: "s2 = ?S2"
    using p2 unfolding e1 b by (simp only: sum.inject prod.inject simp_thms)
  have c: "get_progress (Some ?S1) ''u1'' = Inr [(''items'', VDict [(''a'', VBool True), (''b'', VBool False)])]"
    using g1 unfolding e1 by (simp add: dump_items_def)
  have d: "get_progress (Some ?S2) ''u1'' = Inr [(''items'', VDict [(''a'', VBool True)])]"
    using g2 unfolding e2 by (simp add: dump_items_def)
  from a c b d show ?thesis by (intro conjI)
qed

section \<open>Listing steps\<close>

lemma find_many_all: "find_many [] c = c"
  by (simp add: find_many_def matches_def)

lemma map_of_normalize_id:
  "map_of (normalize_id d) k
     = (if k = ''_id'' then None
        else if k = ''id'' then Some (VStr (py_str (get d ''_id'')))
        else map_of d k)"
  by (simp add: normalize_id_def pop_def setitem_def delete_conv' update_conv')

lemma order_key_normalize_id: "order_key (normalize_id d) = order_key d"
  by (simp add: order_key_def get_default_def map_of_normalize_id)

lemma py_sort_num:
  assumes "\<forall>x\<in>set xs. is_num (k x)"
  shows "py_sort k xs = Inr (sort_key (\<lambda>x. num_of (k x)) xs)"
proof (cases "length xs < 2")
  case True
  then have "xs = [] \<or> (\<exists>x. xs = [x])"
    by (cases xs) (auto simp: less_Suc_eq length_Suc_conv)
  then show ?thesis by (auto simp: py_sort_def)
next
  case False
  with assms show ?thesis by (simp add: py_sort_def list_all_iff)
qed

lemma map_sort_key: "map f (sort_key f xs) = sort (map f xs)"
  by (rule properties_for_sort [symmetric]) simp_all

lemma mset_map_cong: "mset xs = mset ys \<Longrightarrow> mset (map f xs) = mset (map f ys)"
  by simp

lemma sort_mset_cong: "mset xs = mset ys \<Longrightarrow> sort xs = sort ys"
  by (rule properties_for_sort) simp_all

lemma list_steps_num:
  assumes "\<forall>d\<in>set (s ''step''). is_num (order_key d)"
  shows "list_steps Truthy (Some s)
           = Inr (sort_key (\<lambda>x. num_of (order_key x)) (map normalize_id (s ''step'')))"
proof -
  have "\<forall>x\<in>set (map normalize_id (s ''step'')). is_num (order_key x)"
    using assms by (simp add: order_key_normalize_id)
  then show ?thesis
    by (simp add: list_steps_def get_documents_def find_many_all py_sort_num)
qed

text \<open>
  Where the handle's truth test answers true and every step's \<^verbatim>\<open>order\<close> is an
  integer (or absent, which counts as 0), list-steps returns every step
  document, in ascending order of \<^verbatim>\<open>order\<close>, each with the field \<^verbatim>\<open>id\<close>
  holding the identifier as a string, without the field \<^verbatim>\<open>_id\<close> and with its
  other fields as stored. A store holding the same documents in another order
  gives the same documents, with the same sequence of \<^verbatim>\<open>order\<close> values.
\<close>

lemma list_steps_sorted_truthy:
  assumes "\<forall>d\<in>set (s ''step''). is_num (order_key d)"
  shows "\<exists>ys. list_steps Truthy (Some s) = Inr ys
           \<and> sorted (map (\<lambda>x. num_of (order_key x)) ys)
           \<and> mset ys = mset (map normalize_id (s ''step''))
           \<and> (\<forall>d\<in>set (s ''step'').
                 map_of (normalize_id d) ''id'' = Some (VStr (py_str (get d ''_id'')))
               \<and> map_of (normalize_id d) ''_id'' = None
               \<and> (\<forall>k. k \<noteq> ''id'' \<and> k \<noteq> ''_id'' \<longrightarrow> map_of (normalize_id d) k = map_of d k))
           \<and> (\<forall>s'. mset (s' ''step'') = mset (s ''step'') \<longrightarrow>
                 (\<exists>zs. list_steps Truthy (Some s') = Inr zs \<and> mset zs = mset ys
                    \<and> map (\<lambda>x. num_of (order_key x)) zs = map (\<lambda>x. num_of (order_key x)) ys))"
proof -
  let ?f = "\<lambda>x. num_of (order_key x)"
  let ?ys = "sort_key ?f (map normalize_id (s ''step''))"
  have r: "list_steps Truthy (Some s) = Inr ?ys"
    using assms by (rule list_steps_num)
  have srt: "sorted (map ?f ?ys)"
    by (rule sorted_sort_key)
  have ms: "mset ?ys = mset (map normalize_id (s ''step''))"
    by (rule mset_sort)
  have ids: "\<forall>d\<in>set (s ''step'').
                 map_of (normalize_id d) ''id'' = Some (VStr (py_str (get d ''_id'')))
               \<and> map_of (normalize_id d) ''_id'' = None
               \<and> (\<forall>k. k \<noteq> ''id'' \<and> k \<noteq> ''_id'' \<longrightarrow> map_of (normalize_id d) k = map_of d k)"
    by (simp add: map_of_normalize_id)
  have perm: "\<forall>s'. mset (s' ''step'') = mset (s ''step'') \<longrightarrow>
                 (\<exists>zs. list_steps Truthy (Some s') = Inr zs \<and> mset zs = mset ?ys
                    \<and> map ?f zs = map ?f ?ys)"
  proof (intro allI impI)
    fix s' :: store
    assume eq: "mset (s' ''step'') = mset (s ''step'')"
    let ?zs = "sort_key ?f (map normalize_id (s' ''step''))"
    from eq have "set (s' ''step'') = set (s ''step'')" by (rule mset_eq_setD)
    with assms have "\<forall>d\<in>set (s' ''step''). is_num (order_key d)" by simp
    then have r': "list_steps Truthy (Some s') = Inr ?zs"
      by (rule list_steps_num)
    have m: "mset (map normalize_id (s' ''step'')) = mset (map normalize_id (s ''step''))"
      using eq by (rule mset_map_cong)
    then have mz: "mset ?zs = mset ?ys"
      by (simp only: mset_sort)
    from m have "mset (map ?f (map normalize_id (s' ''step'')))
        = mset (map ?f (map normalize_id (s ''step'')))"
      by (rule mset_map_cong)
    then have "sort (map ?f (map normalize_id (s' ''step'')))
        = sort (map ?f (map normalize_id (s ''step'')))"
      by (rule sort_mset_cong)
    then have "map ?f ?zs = map ?f ?ys"
      by (simp only: map_sort_key)
    with r' mz show "\<exists>zs. list_steps Truthy (Some s') = Inr zs \<and> mset zs = mset ?ys
                    \<and> map ?f zs = map ?f ?ys"
      by (intro exI [of _ ?zs] conjI)
  qed
  from r srt ms ids perm show ?thesis
    by (intro exI [of _ ?ys] conjI)
qed

text \<open>
  C4. The code breaks the claim. \<^verbatim>\<open>list_steps\<close> reads the steps with
  \<^verbatim>\<open>get_documents("step") if db else []\<close>. Where the database object refuses
  the truth test, as a \<^verbatim>\<open>pymongo\<close> 4 \<^verbatim>\<open>Database\<close> does, the handler ends in
  the unhandled \<^verbatim>\<open>NotImplementedError\<close> whenever the store is present, whatever
  steps it holds: nothing is returned, sorted or not.
\<close>

theorem list_steps_raises:
  "list_steps NoTruthValue (Some s) = Inl (Unhandled ''NotImplementedError'')
   \<and> (\<forall>ys. list_steps NoTruthValue (Some s) \<noteq> Inr ys)"
  by (simp add: list_steps_def)

theorem list_steps_raises_witness:
  "list_steps NoTruthValue (Some ((\<lambda>c. [])(''step'' :=
      [[(''_id'', VOid ''65a1b2c3d4e5f60718293a4b''), (''key'', VStr ''bank''), (''order'', VInt 3)],
       [(''_id'', VOid ''65a1b2c3d4e5f60718293a4c''), (''key'', VStr ''visa''), (''order'', VInt 1)],
       [(''_id'', VOid ''65a1b2c3d4e5f60718293a4d''), (''key'', VStr ''arc''), (''order'', VInt 2)]])))
   = Inl (Unhandled ''NotImplementedError'')"
  using list_steps_raises [of "(\<lambda>c. [])(''step'' :=
      [[(''_id'', VOid ''65a1b2c3d4e5f60718293a4b''), (''key'', VStr ''bank''), (''order'', VInt 3)],
       [(''_id'', VOid ''65a1b2c3d4e5f60718293a4c''), (''key'', VStr ''visa''), (''order'', VInt 1)],
       [(''_id'', VOid ''65a1b2c3d4e5f60718293a4d''), (''key'', VStr ''arc''), (''order'', VInt 2)]])"]
  by (rule conjunct1)

section \<open>Updating and deleting steps\<close>

lemma hexdigit_not_space: "hexdigit c \<Longrightarrow> \<not> isspace c"
  by (auto simp: hexdigit_def isspace_def)

lemma fromhex_digits:
  "list_all hexdigit s \<Longrightarrow> even (length s) \<Longrightarrow> fromhex s = Some (map lower s)"
  by (induction s rule: fromhex.induct) (auto simp: hexdigit_not_space)

lemma ObjectId_Inr_iff: "ObjectId s = Inr i \<longleftrightarrow> length s = 24 \<and> fromhex s = Some i"
  by (auto simp: ObjectId_def split: option.splits)

lemma ObjectId_Inl_iff:
  "ObjectId s = Inl (Unhandled ''InvalidId'') \<longleftrightarrow> \<not> (length s = 24 \<and> (\<exists>j. fromhex s = Some j))"
  by (auto simp: ObjectId_def split: option.splits)

lemma ObjectId_digits: "length s = 24 \<Longrightarrow> list_all hexdigit s \<Longrightarrow> ObjectId s = Inr (map lower s)"
  by (simp add: ObjectId_def fromhex_digits)

lemma set_in_error: "set_in ks v old = Inl e \<Longrightarrow> e = Unhandled ''WriteError''"
  by (induction ks v old arbitrary: e rule: set_in.induct)
     (auto split: option.splits sum.splits if_splits)

lemma set_field_error: "set_field k v d = Inl e \<Longrightarrow> e = Unhandled ''WriteError''"
  by (auto simp: set_field_def split: list.splits option.splits sum.splits dest: set_in_error)

lemma apply_set_error: "apply_set payload d = Inl e \<Longrightarrow> e = Unhandled ''WriteError''"
  by (induction payload d rule: apply_set.induct)
     (auto split: sum.splits dest: set_field_error)

lemma update_first_split:
  assumes "update_first flt payload c = Inr (c', n)"
  shows "(n = 0 \<and> c' = c \<and> (\<forall>x\<in>set c. \<not> matches flt x))
       \<or> (n = 1 \<and> (\<exists>c1 d c2 d'. c = c1 @ d # c2 \<and> (\<forall>x\<in>set c1. \<not> matches flt x)
               \<and> matches flt d \<and> apply_set payload d = Inr d'
               \<and> map_of d' ''_id'' = map_of d ''_id''
               \<and> c' = c1 @ d' # c2))"
  using assms
proof (induction c arbitrary: c' n)
  case Nil
  then show ?case by simp
next
  case (Cons x c)
  show ?case
  proof (cases "matches flt x")
    case True
    with Cons.prems obtain x' where "n = 1" "apply_set payload x = Inr x'"
      "map_of x' ''_id'' = map_of x ''_id''" "c' = x' # c"
      by (auto split: if_splits sum.splits)
    with True have "x # c = [] @ x # c \<and> (\<forall>y\<in>set []. \<not> matches flt y)
               \<and> matches flt x \<and> apply_set payload x = Inr x'
               \<and> map_of x' ''_id'' = map_of x ''_id''
               \<and> c' = [] @ x' # c"
      by simp
    with \<open>n = 1\<close> show ?thesis by blast
  next
    case False
    with Cons.prems obtain c0 where u: "update_first flt payload c = Inr (c0, n)" and c': "c' = x # c0"
      by (auto split: sum.splits)
    from Cons.IH [OF u] show ?thesis
    proof
      assume "n = 0 \<and> c0 = c \<and> (\<forall>x\<in>set c. \<not> matches flt x)"
      with False c' show ?thesis by simp
    next
      assume "n = 1 \<and> (\<exists>c1 d c2 d'. c = c1 @ d # c2 \<and> (\<forall>x\<in>set c1. \<not> matches flt x)
               \<and> matches flt d \<and> apply_set payload d = Inr d'
               \<and> map_of d' ''_id'' = map_of d ''_id''
               \<and> c0 = c1 @ d' # c2)"
      then obtain c1 d c2 d' where n: "n = 1" and c: "c = c1 @ d # c2"
        and nm: "\<forall>x\<in>set c1. \<not> matches flt x" and m: "matches flt d"
        and ap: "apply_set payload d = Inr d'" and idk: "map_of d' ''_id'' = map_of d ''_id''"
        and c0: "c0 = c1 @ d' # c2"
        by blast
      have "x # c = (x # c1) @ d # c2 \<and> (\<forall>y\<in>set (x # c1). \<not> matches flt y)
               \<and> matches flt d \<and> apply_set payload d = Inr d'
               \<and> map_of d' ''_id'' = map_of d ''_id''
               \<and> c' = (x # c1) @ d' # c2"
        using c nm m ap idk c0 c' False by simp
      with n show ?thesis by blast
    qed
  qed
qed

lemma update_first_no_match:
  "\<forall>x\<in>set c. \<not> matches flt x \<Longrightarrow> update_first flt payload c = Inr (c, 0)"
  by (induction c) simp_all

lemma update_first_matched:
  assumes "\<exists>x\<in>set c. matches flt x"
  shows "update_first flt payload c = Inl (Unhandled ''WriteError'')
       \<or> (\<exists>c'. update_first flt payload c = Inr (c', 1))"
  using assms
proof (induction c)
  case Nil
  then show ?case by simp
next
  case (Cons a c)
  show ?case
  proof (cases "matches flt a")
    case True
    then show ?thesis
      by (auto split: sum.splits dest: apply_set_error)
  next
    case False
    with Cons.prems have "\<exists>x\<in>set c. matches flt x" by simp
    from Cons.IH [OF this] False show ?thesis by auto
  qed
qed

lemma delete_one_no_match:
  "\<forall>x\<in>set c. \<not> matches flt x \<Longrightarrow> delete_one flt c = (c, 0)"
  by (induction c) simp_all

lemma delete_one_match:
  "\<exists>x\<in>set c. matches flt x \<Longrightarrow> snd (delete_one flt c) = 1"
proof (induction c)
  case Nil
  then show ?case by simp
next
  case (Cons a c)
  show ?case
  proof (cases "matches flt a")
    case True
    then show ?thesis by simp
  next
    case False
    with Cons.prems have "\<exists>x\<in>set c. matches flt x" by simp
    from Cons.IH [OF this] False show ?thesis by (auto split: prod.splits)
  qed
qed

lemma is_prefix_single: "is_prefix [a] [b] \<longleftrightarrow> a = b"
  by simp

lemma conflicting_plain:
  "distinct ks \<Longrightarrow> \<not> conflicting (map (\<lambda>k. [k]) ks)"
  by (induction ks) (auto simp: list_ex_iff)

lemma check_update_plain:
  assumes "list_all (\<lambda>(k, v). plain_name k \<and> encodable v) payload"
    and "distinct (map fst payload)"
  shows "check_update payload = None"
proof -
  from assms(1) have enc: "list_all encodable (map snd payload)"
    by (auto simp: list_all_iff)
  from assms(1) have sp: "map split_path (map fst payload) = map (\<lambda>k. [k]) (map fst payload)"
    by (auto simp: list_all_iff plain_name_def split_path_plain)
  from assms(1) have ne: "\<not> list_ex (\<lambda>k. list_ex (\<lambda>c. c = []) (split_path k)) (map fst payload)"
    by (auto simp: list_all_iff list_ex_iff plain_name_def split_path_plain)
  have nc: "\<not> conflicting (map split_path (map fst payload))"
    unfolding sp using assms(2) by (rule conflicting_plain)
  show ?thesis
    using enc ne nc by (simp add: check_update_def)
qed

lemma update_step_404_iff:
  assumes "ObjectId step_id = Inr i" and "check_update payload = None"
  shows "update_step (Some s) step_id payload = Inl (HTTPException 404 ''Step not found'')
           \<longleftrightarrow> (\<forall>d\<in>set (s ''step''). map_of d ''_id'' \<noteq> Some (VOid i))"
proof (cases "\<exists>x\<in>set (s ''step''). matches [(''_id'', VOid i)] x")
  case True
  from update_first_matched [OF True, of payload] True show ?thesis
    by (auto simp: update_step_def assms update_one_def matches_single)
next
  case False
  then have "update_first [(''_id'', VOid i)] payload (s ''step'') = Inr (s ''step'', 0)"
    by (simp add: update_first_no_match)
  with False show ?thesis
    by (simp add: update_step_def assms update_one_def matches_single)
qed

lemma update_step_Inr_D:
  assumes "update_step (Some s) step_id payload = Inr (s', r)"
  shows "\<exists>i c1 d c2 d'.
           ObjectId step_id = Inr i \<and> check_update payload = None
         \<and> s ''step'' = c1 @ d # c2
         \<and> (\<forall>x\<in>set c1. map_of x ''_id'' \<noteq> Some (VOid i))
         \<and> map_of d ''_id'' = Some (VOid i)
         \<and> apply_set payload d = Inr d'
         \<and> s' = s(''step'' := c1 @ d' # c2)
         \<and> r = [(''updated'', VBool True)]"
proof -
  from assms obtain i where i: "ObjectId step_id = Inr i"
    by (auto simp: update_step_def split: sum.splits)
  from assms i have chk: "check_update payload = None"
    by (auto simp: update_step_def update_one_def split: option.splits)
  from assms i chk obtain c' n where
    u: "update_first [(''_id'', VOid i)] payload (s ''step'') = Inr (c', n)"
    and n: "n \<noteq> 0" and s': "s' = s(''step'' := c')" and r: "r = [(''updated'', VBool True)]"
    by (auto simp: update_step_def update_one_def split: sum.splits if_splits)
  from update_first_split [OF u] n obtain c1 d c2 d' where
    "s ''step'' = c1 @ d # c2" "\<forall>x\<in>set c1. \<not> matches [(''_id'', VOid i)] x"
    "matches [(''_id'', VOid i)] d" "apply_set payload d = Inr d'" "c' = c1 @ d' # c2"
    by auto
  with i chk s' r show ?thesis
    unfolding matches_single by blast
qed

lemma delete_step_404_iff:
  assumes "ObjectId step_id = Inr i"
  shows "delete_step (Some s) step_id = Inl (HTTPException 404 ''Step not found'')
           \<longleftrightarrow> (\<forall>d\<in>set (s ''step''). map_of d ''_id'' \<noteq> Some (VOid i))"
proof (cases "\<exists>x\<in>set (s ''step''). matches [(''_id'', VOid i)] x")
  case True
  from delete_one_match [OF True] True show ?thesis
    by (auto simp: delete_step_def assms matches_single split: prod.splits)
next
  case False
  then have "delete_one [(''_id'', VOid i)] (s ''step'') = (s ''step'', 0)"
    by (simp add: delete_one_no_match)
  with False show ?thesis
    by (simp add: delete_step_def assms matches_single)
qed

lemma delete_step_Inr_D:
  assumes "ObjectId step_id = Inr i" and "delete_step (Some s) step_id = Inr (s', r)"
  shows "\<exists>d\<in>set (s ''step''). map_of d ''_id'' = Some (VOid i)"
proof (rule ccontr)
  assume "\<not> (\<exists>d\<in>set (s ''step''). map_of d ''_id'' = Some (VOid i))"
  then have "\<forall>d\<in>set (s ''step''). map_of d ''_id'' \<noteq> Some (VOid i)" by simp
  with delete_step_404_iff [OF assms(1), of s] assms(2) show False by simp
qed

text \<open>
  C5, as the code has it. With the store handle absent, update and delete fail
  with 500 "Database not available", whatever the identifier. With the handle
  present and an identifier the parser accepts, delete fails with 404 "Step not
  found" if and only if no step document has the parsed identifier, and so does
  update when its payload is not empty, names plain fields, each once, and holds
  values the driver can encode; neither succeeds unless a step has the
  identifier. The parser accepts the strings of 24 characters that
  \<^verbatim>\<open>fromhex\<close> reads, among them every string of 24 hexadecimal digits. Any
  other identifier makes it raise \<^verbatim>\<open>InvalidId\<close>, which neither handler
  catches: the request ends in an unhandled error, not in 404.
\<close>

theorem step_not_found:
  "update_step None step_id payload = Inl (HTTPException 500 ''Database not available'')
   \<and> delete_step None step_id = Inl (HTTPException 500 ''Database not available'')
   \<and> (ObjectId step_id = Inr i \<longrightarrow>
        (delete_step (Some s) step_id = Inl (HTTPException 404 ''Step not found'')
           \<longleftrightarrow> (\<forall>d\<in>set (s ''step''). map_of d ''_id'' \<noteq> Some (VOid i))))
   \<and> (ObjectId step_id = Inr i \<longrightarrow> payload \<noteq> []
        \<longrightarrow> list_all (\<lambda>(k, v). plain_name k \<and> encodable v) payload
        \<longrightarrow> distinct (map fst payload)
        \<longrightarrow> (update_step (Some s) step_id payload = Inl (HTTPException 404 ''Step not found'')
           \<longleftrightarrow> (\<forall>d\<in>set (s ''step''). map_of d ''_id'' \<noteq> Some (VOid i))))
   \<and> (ObjectId step_id = Inr i \<longrightarrow> update_step (Some s) step_id payload = Inr (s', r)
        \<longrightarrow> (\<exists>d\<in>set (s ''step''). map_of d ''_id'' = Some (VOid i)))
   \<and> (ObjectId step_id = Inr i \<longrightarrow> delete_step (Some s) step_id = Inr (s', r)
        \<longrightarrow> (\<exists>d\<in>set (s ''step''). map_of d ''_id'' = Some (VOid i)))
   \<and> (ObjectId step_id = Inl (Unhandled ''InvalidId'') \<longrightarrow>
        update_step (Some s) step_id payload = Inl (Unhandled ''InvalidId'')
      \<and> delete_step (Some s) step_id = Inl (Unhandled ''InvalidId''))
   \<and> (ObjectId step_id = Inr i \<longleftrightarrow> length step_id = 24 \<and> fromhex step_id = Some i)
   \<and> (ObjectId step_id = Inl (Unhandled ''InvalidId'')
        \<longleftrightarrow> \<not> (length step_id = 24 \<and> (\<exists>j. fromhex step_id = Some j)))
   \<and> (length step_id = 24 \<and> list_all hexdigit step_id
        \<longrightarrow> ObjectId step_id = Inr (map lower step_id))"
proof (intro conjI impI)
  show "update_step None step_id payload = Inl (HTTPException 500 ''Database not available'')"
    by (simp add: update_step_def)
  show "delete_step None step_id = Inl (HTTPException 500 ''Database not available'')"
    by (simp add: delete_step_def)
  show "delete_step (Some s) step_id = Inl (HTTPException 404 ''Step not found'')
           \<longleftrightarrow> (\<forall>d\<in>set (s ''step''). map_of d ''_id'' \<noteq> Some (VOid i))"
    if "ObjectId step_id = Inr i"
    using that by (rule delete_step_404_iff)
  show "update_step (Some s) step_id payload = Inl (HTTPException 404 ''Step not found'')
           \<longleftrightarrow> (\<forall>d\<in>set (s ''step''). map_of d ''_id'' \<noteq> Some (VOid i))"
    if "ObjectId step_id = Inr i" "list_all (\<lambda>(k, v). plain_name k \<and> encodable v) payload"
      "distinct (map fst payload)"
    using that(1) check_update_plain [OF that(2,3)] by (rule update_step_404_iff)
  show "\<exists>d\<in>set (s ''step''). map_of d ''_id'' = Some (VOid i)"
    if "ObjectId step_id = Inr i" "update_step (Some s) step_id payload = Inr (s', r)"
    using update_step_Inr_D [OF that(2)] that(1) by auto
  show "\<exists>d\<in>set (s ''step''). map_of d ''_id'' = Some (VOid i)"
    if "ObjectId step_id = Inr i" "delete_step (Some s) step_id = Inr (s', r)"
    using that by (rule delete_step_Inr_D)
  show "update_step (Some s) step_id payload = Inl (Unhandled ''InvalidId'')"
    if "ObjectId step_id = Inl (Unhandled ''InvalidId'')"
    using that by (simp add: update_step_def)
  show "delete_step (Some s) step_id = Inl (Unhandled ''InvalidId'')"
    if "ObjectId step_id = Inl (Unhandled ''InvalidId'')"
    using that by (simp add: delete_step_def)
  show "ObjectId step_id = Inr i \<longleftrightarrow> length step_id = 24 \<and> fromhex step_id = Some i"
    by (rule ObjectId_Inr_iff)
  show "ObjectId step_id = Inl (Unhandled ''InvalidId'')
        \<longleftrightarrow> \<not> (length step_id = 24 \<and> (\<exists>j. fromhex step_id = Some j))"
    by (rule ObjectId_Inl_iff)
  show "ObjectId step_id = Inr (map lower step_id)"
    if "length step_id = 24 \<and> list_all hexdigit step_id"
    using that by (simp add: ObjectId_digits)
qed

theorem step_not_found_witness:
  "update_step None ''65a1b2c3d4e5f60718293a4c'' [(''title'', VStr ''Visa'')]
     = Inl (HTTPException 500 ''Database not available'')
   \<and> delete_step None ''65a1b2c3d4e5f60718293a4c'' = Inl (HTTPException 500 ''Database not available'')
   \<and> update_step (Some ((\<lambda>c. [])(''step'' :=
        [[(''_id'', VOid ''65a1b2c3d4e5f60718293a4b''), (''key'', VStr ''visa''), (''order'', VInt 1)]])))
        ''65a1b2c3d4e5f60718293a4c'' [(''title'', VStr ''Visa'')]
     = Inl (HTTPException 404 ''Step not found'')
   \<and> delete_step (Some ((\<lambda>c. [])(''step'' :=
        [[(''_id'', VOid ''65a1b2c3d4e5f60718293a4b''), (''key'', VStr ''visa''), (''order'', VInt 1)]])))
        ''65a1b2c3d4e5f60718293a4c''
     = Inl (HTTPException 404 ''Step not found'')
   \<and> delete_step (Some ((\<lambda>c. [])(''step'' :=
        [[(''_id'', VOid ''65a1b2c3d4e5f60718293a4b''), (''key'', VStr ''visa''), (''order'', VInt 1)]])))
        ''                        ''
     = Inl (HTTPException 404 ''Step not found'')
   \<and> delete_step (Some ((\<lambda>c. [])(''step'' :=
        [[(''_id'', VOid ''65a1b2c3d4e5f60718293a4b''), (''key'', VStr ''visa''), (''order'', VInt 1)]])))
        ''65A1B2C3D4E5F60718293A4B''
     = Inr ((\<lambda>c. [])(''step'' := []), [(''deleted'', VBool True)])"
proof -
  let ?S = "(\<lambda>c. [])(''step'' :=
        [[(''_id'', VOid ''65a1b2c3d4e5f60718293a4b''), (''key'', VStr ''visa''), (''order'', VInt 1)]])"
  let ?P = "[(''title'', VStr ''Visa'')]"
  have oid: "ObjectId ''65a1b2c3d4e5f60718293a4c'' = Inr ''65a1b2c3d4e5f60718293a4c''"
    by (simp add: ObjectId_def hexdigit_def isspace_def lower_def)
  have blank: "ObjectId ''                        '' = Inr []"
    by (simp add: ObjectId_def isspace_def)
  have none: "\<forall>d\<in>set (?S ''step''). map_of d ''_id'' \<noteq> Some (VOid ''65a1b2c3d4e5f60718293a4c'')"
    by simp
  have none': "\<forall>d\<in>set (?S ''step''). map_of d ''_id'' \<noteq> Some (VOid [])"
    by simp
  have pl: "list_all (\<lambda>(k, v). plain_name k \<and> encodable v) ?P"
    by (simp add: plain_name_def)
  have ne: "?P \<noteq> []" and di: "distinct (map fst ?P)"
    by simp_all
  note inst = step_not_found [of "''65a1b2c3d4e5f60718293a4c''" ?P "''65a1b2c3d4e5f60718293a4c''" ?S]
  note inst' = step_not_found [of "''                        ''" ?P "[]" ?S]
  have a: "update_step None ''65a1b2c3d4e5f60718293a4c'' ?P
             = Inl (HTTPException 500 ''Database not available'')"
    and b: "delete_step None ''65a1b2c3d4e5f60718293a4c''
             = Inl (HTTPException 500 ''Database not available'')"
    using inst by blast+
  have c: "update_step (Some ?S) ''65a1b2c3d4e5f60718293a4c'' ?P
             = Inl (HTTPException 404 ''Step not found'')"
    using inst oid none pl ne di by blast
  have d: "delete_step (Some ?S) ''65a1b2c3d4e5f60718293a4c''
             = Inl (HTTPException 404 ''Step not found'')"
    using inst oid none by blast
  have d': "delete_step (Some ?S) ''                        ''
             = Inl (HTTPException 404 ''Step not found'')"
    using inst' blank none' by blast
  have e: "delete_step (Some ?S) ''65A1B2C3D4E5F60718293A4B''
             = Inr ((\<lambda>c. [])(''step'' := []), [(''deleted'', VBool True)])"
    by (simp add: delete_step_def ObjectId_def hexdigit_def isspace_def lower_def matches_def)
  from a b c d d' e show ?thesis by (intro conjI)
qed

text \<open>
  C5, as the claim states it, fails: in a store with no step at all, the
  identifier \<^verbatim>\<open>abc\<close> belongs to no step, and neither update nor delete
  answers 404.
\<close>

theorem step_not_found_counterexample:
  "update_step (Some (\<lambda>c. [])) ''abc'' [(''title'', VStr ''Visa'')] = Inl (Unhandled ''InvalidId'')
   \<and> update_step (Some (\<lambda>c. [])) ''abc'' [(''title'', VStr ''Visa'')]
        \<noteq> Inl (HTTPException 404 ''Step not found'')
   \<and> delete_step (Some (\<lambda>c. [])) ''abc'' = Inl (Unhandled ''InvalidId'')
   \<and> delete_step (Some (\<lambda>c. [])) ''abc'' \<noteq> Inl (HTTPException 404 ''Step not found'')
   \<and> set ((\<lambda>c. []) ''step'' :: doc list) = {}"
  by (simp add: update_step_def delete_step_def ObjectId_def)

lemma map_of_apply_set_plain:
  assumes "apply_set payload d = Inr d'" and "\<forall>k\<in>fst ` set payload. CHR ''.'' \<notin> set k"
  shows "map_of d' k = (case map_of (rev payload) k of None \<Rightarrow> map_of d k | Some v \<Rightarrow> Some v)"
  using assms
proof (induction payload arbitrary: d)
  case Nil
  then show ?case by simp
next
  case (Cons p payload)
  obtain k' v' where p: "p = (k', v')" by (cases p)
  from Cons.prems p have sf: "set_field k' v' d = Inr (AList.update k' v' d)"
    by (simp add: set_field_plain)
  with Cons.prems p have ap: "apply_set payload (AList.update k' v' d) = Inr d'"
    by simp
  from Cons.prems have "\<forall>k\<in>fst ` set payload. CHR ''.'' \<notin> set k" by simp
  from Cons.IH [OF ap this] show ?case
    by (simp add: p update_conv' map_add_def split: option.splits)
qed

lemma map_of_rev_distinct:
  "distinct (map fst payload) \<Longrightarrow> map_of (rev payload) = map_of payload"
  by (rule ext) (metis distinct_rev map_of_inject_set rev_map set_rev)

text \<open>
  C6, as the code has it. A successful update of a step whose payload names
  plain fields changes one document, the first one with the identifier: every
  field named in the payload holds the payload's value afterwards, every field
  not named is as it was, and the other documents stay as they were. The
  payload is a dict, so its keys are distinct.
\<close>

theorem update_step_merges:
  assumes ok: "update_step (Some s) step_id payload = Inr (s', r)"
    and plain: "list_all (\<lambda>(k, v). plain_name k) payload"
    and dist: "distinct (map fst payload)"
  shows "\<exists>i c1 d c2 d'.
           ObjectId step_id = Inr i
         \<and> s ''step'' = c1 @ d # c2
         \<and> (\<forall>x\<in>set c1. map_of x ''_id'' \<noteq> Some (VOid i))
         \<and> map_of d ''_id'' = Some (VOid i)
         \<and> s' = s(''step'' := c1 @ d' # c2)
         \<and> (\<forall>(k, v)\<in>set payload. map_of d' k = Some v)
         \<and> (\<forall>k. k \<notin> fst ` set payload \<longrightarrow> map_of d' k = map_of d k)
         \<and> r = [(''updated'', VBool True)]"
proof -
  from update_step_Inr_D [OF ok] obtain i c1 d c2 d' where
    i: "ObjectId step_id = Inr i" and c: "s ''step'' = c1 @ d # c2"
    and nm: "\<forall>x\<in>set c1. map_of x ''_id'' \<noteq> Some (VOid i)"
    and m: "map_of d ''_id'' = Some (VOid i)"
    and ap: "apply_set payload d = Inr d'"
    and s': "s' = s(''step'' := c1 @ d' # c2)" and r: "r = [(''updated'', VBool True)]"
    by blast
  from plain have nodot: "\<forall>k\<in>fst ` set payload. CHR ''.'' \<notin> set k"
    by (auto simp: list_all_iff plain_name_def)
  have mo: "map_of d' k = (case map_of payload k of None \<Rightarrow> map_of d k | Some v \<Rightarrow> Some v)" for k
    using map_of_apply_set_plain [OF ap nodot, of k] by (simp add: map_of_rev_distinct [OF dist])
  have named: "\<forall>(k, v)\<in>set payload. map_of d' k = Some v"
    using dist by (auto simp: mo)
  have others: "\<forall>k. k \<notin> fst ` set payload \<longrightarrow> map_of d' k = map_of d k"
    by (simp add: mo map_of_eq_None_iff [THEN iffD2])
  from i c nm m s' named others r show ?thesis
    by blast
qed

theorem update_step_merges_witness:
  "update_step (Some ((\<lambda>c. [])(''step'' :=
        [[(''_id'', VOid ''65a1b2c3d4e5f60718293a4b''), (''title'', VStr ''Visa''), (''order'', VInt 1)]])))
        ''65a1b2c3d4e5f60718293a4b'' [(''title'', VStr ''Work visa''), (''cost_estimate'', VStr ''NT$1000'')]
     = Inr ((\<lambda>c. [])(''step'' :=
        [[(''_id'', VOid ''65a1b2c3d4e5f60718293a4b''), (''title'', VStr ''Work visa''),
          (''order'', VInt 1), (''cost_estimate'', VStr ''NT$1000'')]]),
        [(''updated'', VBool True)])
   \<and> (\<exists>i c1 d c2 d'.
           ObjectId ''65a1b2c3d4e5f60718293a4b'' = Inr i
         \<and> ((\<lambda>c. [])(''step'' :=
        [[(''_id'', VOid ''65a1b2c3d4e5f60718293a4b''), (''title'', VStr ''Visa''), (''order'', VInt 1)]]))
              ''step'' = c1 @ d # c2
         \<and> (\<forall>x\<in>set c1. map_of x ''_id'' \<noteq> Some (VOid i))
         \<and> map_of d ''_id'' = Some (VOid i)
         \<and> (\<lambda>c. [])(''step'' :=
        [[(''_id'', VOid ''65a1b2c3d4e5f60718293a4b''), (''title'', VStr ''Work visa''),
          (''order'', VInt 1), (''cost_estimate'', VStr ''NT$1000'')]])
             = ((\<lambda>c. [])(''step'' :=
        [[(''_id'', VOid ''65a1b2c3d4e5f60718293a4b''), (''title'', VStr ''Visa''), (''order'', VInt 1)]]))
               (''step'' := c1 @ d' # c2)
         \<and> (\<forall>(k, v)\<in>set [(''title'', VStr ''Work visa''), (''cost_estimate'', VStr ''NT$1000'')].
               map_of d' k = Some v)
         \<and> (\<forall>k. k \<notin> fst ` set [(''title'', VStr ''Work visa''), (''cost_estimate'', VStr ''NT$1000'')]
               \<longrightarrow> map_of d' k = map_of d k)
         \<and> [(''updated'', VBool True)] = [(''updated'', VBool True)])"
proof -
  let ?S = "(\<lambda>c. [])(''step'' :=
        [[(''_id'', VOid ''65a1b2c3d4e5f60718293a4b''), (''title'', VStr ''Visa''), (''order'', VInt 1)]])"
  let ?P = "[(''title'', VStr ''Work visa''), (''cost_estimate'', VStr ''NT$1000'')]"
  let ?S' = "(\<lambda>c. [])(''step'' :=
        [[(''_id'', VOid ''65a1b2c3d4e5f60718293a4b''), (''title'', VStr ''Work visa''),
          (''order'', VInt 1), (''cost_estimate'', VStr ''NT$1000'')]])"
  have run: "update_step (Some ?S) ''65a1b2c3d4e5f60718293a4b'' ?P
               = Inr (?S', [(''updated'', VBool True)])"
    by (simp add: update_step_def ObjectId_def hexdigit_def isspace_def lower_def update_one_def
          check_update_def matches_def set_field_plain)
  have pl: "list_all (\<lambda>(k, v). plain_name k) ?P"
    by (simp add: plain_name_def)
  have dist: "distinct (map fst ?P)" by simp
  from run update_step_merges [OF run pl dist] show ?thesis by (rule conjI)
qed

text \<open>
  C6, as the claim states it, fails: the store reads the payload name
  \<^verbatim>\<open>a.b\<close> as a path. The update succeeds, no field of that name holds the
  payload's value afterwards, and the field \<^verbatim>\<open>a\<close>, which the payload does not
  name, has changed.
\<close>

theorem update_step_merges_counterexample:
  "update_step (Some ((\<lambda>c. [])(''step'' :=
        [[(''_id'', VOid ''65a1b2c3d4e5f60718293a4b''), (''title'', VStr ''Visa'')]])))
        ''65a1b2c3d4e5f60718293a4b'' [(''a.b'', VInt 1)]
     = Inr ((\<lambda>c. [])(''step'' :=
        [[(''_id'', VOid ''65a1b2c3d4e5f60718293a4b''), (''title'', VStr ''Visa''),
          (''a'', VDict [(''b'', VInt 1)])]]),
        [(''updated'', VBool True)])
   \<and> map_of [(''_id'', VOid ''65a1b2c3d4e5f60718293a4b''), (''title'', VStr ''Visa''),
          (''a'', VDict [(''b'', VInt 1)])] ''a.b'' \<noteq> Some (VInt 1)
   \<and> map_of [(''_id'', VOid ''65a1b2c3d4e5f60718293a4b''), (''title'', VStr ''Visa''),
          (''a'', VDict [(''b'', VInt 1)])] ''a''
      \<noteq> map_of [(''_id'', VOid ''65a1b2c3d4e5f60718293a4b''), (''title'', VStr ''Visa'')] ''a''"
  by (simp add: update_step_def ObjectId_def hexdigit_def isspace_def lower_def update_one_def
        check_update_def matches_def set_field_def)

section \<open>Notifications\<close>

lemma list_notifications_Some:
  "list_notifications Truthy (Some s) u
     = Inr (map normalize_id (filter (\<lambda>d. map_of d ''user_id'' = Some (VStr u)) (s ''notification'')))"
proof -
  have "matches [(''user_id'', VStr u)] = (\<lambda>d. map_of d ''user_id'' = Some (VStr u))"
    by (rule ext) (rule matches_single)
  then show ?thesis
    by (simp add: list_notifications_def get_documents_def find_many_def)
qed

text \<open>
  Creating a notification stores one document more, with the type "reminder",
  and returns its identifier. Where the handle's truth test answers true,
  listing for a user returns the notification documents whose \<^verbatim>\<open>user_id\<close> is
  that user, each with its identifier as the string field \<^verbatim>\<open>id\<close>: after a
  creation for a user, that user's list is the list before with the new
  notification appended, and the list of every other user is unchanged.
\<close>

lemma notifications_scoped_truthy:
  "\<exists>s' ys.
      create_notification (Some s) new_id (NotificationIn u msg due)
        = Inr (s', [(''id'', VStr new_id)])
    \<and> s' ''notification'' = s ''notification'' @
          [[(''_id'', VOid new_id), (''user_id'', VStr u), (''type'', VStr ''reminder''),
            (''message'', VStr msg), (''due_date'', opt_str due)]]
    \<and> list_notifications Truthy (Some s) u = Inr ys
    \<and> list_notifications Truthy (Some s') u
        = Inr (ys @ [[(''user_id'', VStr u), (''type'', VStr ''reminder''),
                      (''message'', VStr msg), (''due_date'', opt_str due),
                      (''id'', VStr new_id)]])
    \<and> (\<forall>u'. u' \<noteq> u \<longrightarrow>
          list_notifications Truthy (Some s') u' = list_notifications Truthy (Some s) u')
    \<and> (\<forall>u'. list_notifications Truthy (Some s') u'
          = Inr (map normalize_id
                  (filter (\<lambda>d. map_of d ''user_id'' = Some (VStr u')) (s' ''notification''))))"
proof -
  let ?d = "[(''_id'', VOid new_id), (''user_id'', VStr u), (''type'', VStr ''reminder''),
             (''message'', VStr msg), (''due_date'', opt_str due)]"
  let ?s' = "s(''notification'' := s ''notification'' @ [?d])"
  let ?ys = "map normalize_id (filter (\<lambda>d. map_of d ''user_id'' = Some (VStr u)) (s ''notification''))"
  have run: "create_notification (Some s) new_id (NotificationIn u msg due)
               = Inr (?s', [(''id'', VStr new_id)])"
    by (simp add: create_notification_def create_document_def insert_one_def
          dump_Notification_def)
  have st: "?s' ''notification'' = s ''notification'' @ [?d]"
    by simp
  have before: "list_notifications Truthy (Some s) u = Inr ?ys"
    by (rule list_notifications_Some)
  have nd: "normalize_id ?d = [(''user_id'', VStr u), (''type'', VStr ''reminder''),
                      (''message'', VStr msg), (''due_date'', opt_str due),
                      (''id'', VStr new_id)]"
    by (simp add: normalize_id_def pop_def setitem_def get_def AList.delete_eq)
  have after: "list_notifications Truthy (Some ?s') u = Inr (?ys @ [normalize_id ?d])"
    by (simp add: list_notifications_Some)
  have other: "\<forall>u'. u' \<noteq> u \<longrightarrow>
      list_notifications Truthy (Some ?s') u' = list_notifications Truthy (Some s) u'"
    by (simp add: list_notifications_Some)
  have all: "\<forall>u'. list_notifications Truthy (Some ?s') u'
          = Inr (map normalize_id
                  (filter (\<lambda>d. map_of d ''user_id'' = Some (VStr u')) (?s' ''notification'')))"
    by (intro allI, rule list_notifications_Some)
  from run st before after [unfolded nd] other all show ?thesis
    by (intro exI [of _ ?s'] exI [of _ ?ys] conjI)
qed

text \<open>
  C7. The code breaks the claim. \<^verbatim>\<open>list_notifications\<close> reads the
  notifications with \<^verbatim>\<open>get_documents("notification", {...}) if db else []\<close>.
  Where the database object refuses the truth test, as a \<^verbatim>\<open>pymongo\<close> 4
  \<^verbatim>\<open>Database\<close> does, a notification is created (with the type "reminder") and
  stored, and listing then ends in the unhandled \<^verbatim>\<open>NotImplementedError\<close> for
  every user: the notification created for a user is not returned to that user.
\<close>

theorem list_notifications_raises:
  "\<exists>s'. create_notification (Some s) new_id (NotificationIn u msg due)
           = Inr (s', [(''id'', VStr new_id)])
        \<and> s' ''notification'' = s ''notification'' @
             [[(''_id'', VOid new_id), (''user_id'', VStr u), (''type'', VStr ''reminder''),
               (''message'', VStr msg), (''due_date'', opt_str due)]]
        \<and> list_notifications NoTruthValue (Some s') u = Inl (Unhandled ''NotImplementedError'')"
  by (simp add: create_notification_def create_document_def insert_one_def
        dump_Notification_def list_notifications_def)

theorem list_notifications_raises_witness:
  "\<exists>s'. create_notification (Some (\<lambda>c. [])) ''65a1b2c3d4e5f60718293a4b''
           (NotificationIn ''u1'' ''Renew ARC'' (Some ''2025-01-31''))
           = Inr (s', [(''id'', VStr ''65a1b2c3d4e5f60718293a4b'')])
        \<and> s' ''notification'' = (\<lambda>c. []) ''notification'' @
             [[(''_id'', VOid ''65a1b2c3d4e5f60718293a4b''), (''user_id'', VStr ''u1''),
               (''type'', VStr ''reminder''), (''message'', VStr ''Renew ARC''),
               (''due_date'', opt_str (Some ''2025-01-31''))]]
        \<and> list_notifications NoTruthValue (Some s') ''u1'' = Inl (Unhandled ''NotImplementedError'')"
  by (rule list_notifications_raises)

end
